theory Spec2Isabelle
  imports Main "HOL-Library.Word"
begin

section \<open>Python values used by snekbox\<close>

text \<open>
  A Python \<open>str\<close> is a sequence of Unicode code points, so it is a list of naturals
  (\<open>len\<close> counts code points); \<open>bytes\<close> is a list of 8-bit words. \<open>lit\<close> turns an
  ASCII literal of the theory into such a string.
\<close>

type_synonym str = "nat list"
type_synonym bytes = "8 word list"

definition lit :: "string \<Rightarrow> str" where
  "lit cs = map of_char cs"

definition blit :: "string \<Rightarrow> bytes" where
  "blit cs = map of_char cs"

text \<open>
  The exception classes that the modelled code can raise. \<open>IllegalPathError\<close> and
  \<open>ParsingError\<close> are the two subclasses of \<open>AttachmentError\<close> declared in
  \<^verbatim>\<open>snekio.py\<close>; \<open>BinasciiError\<close> is \<^verbatim>\<open>binascii.Error\<close>.
\<close>

datatype error =
    KeyError | IndexError | TypeError | AttributeError | ValueError
  | BinasciiError | UnicodeEncodeError | UnicodeDecodeError
  | IllegalPathError | ParsingError
  | RuntimeError | FileExistsError | FileNotFoundError | IsADirectoryError
  | OSError | CalledProcessError

fun is_AttachmentError :: "error \<Rightarrow> bool" where
  "is_AttachmentError IllegalPathError = True"
| "is_AttachmentError ParsingError = True"
| "is_AttachmentError _ = False"

text \<open>Values of a transport dictionary: strings, and the integer \<open>size\<close> of \<open>to_dict\<close>.\<close>

datatype pyval = PyStr str | PyInt int

type_synonym dict = "str \<rightharpoonup> pyval"

section \<open>pathlib: the parts of a POSIX path\<close>

text \<open>
  \<^verbatim>\<open>Path(name).parts\<close> and \<^verbatim>\<open>Path(name).is_absolute()\<close> for one string argument, as
  CPython's \<^verbatim>\<open>pathlib\<close> computes them on POSIX (snekbox mounts tmpfs, so it runs on
  Linux): \<^verbatim>\<open>splitroot\<close> takes the root (\<^verbatim>\<open>//\<close> for exactly two leading slashes,
  \<^verbatim>\<open>/\<close> for one or more than two), the rest is split at \<^verbatim>\<open>/\<close>, and empty and
  \<^verbatim>\<open>.\<close> components are dropped.
\<close>

definition sep :: nat where
  "sep = 47"

definition backslash :: nat where
  "backslash = 92"

definition dot :: nat where
  "dot = 46"

fun lstrip_sep :: "str \<Rightarrow> str" where
  "lstrip_sep [] = []"
| "lstrip_sep (c # cs) = (if c = sep then lstrip_sep cs else c # cs)"

fun split_sep :: "str \<Rightarrow> str list" where
  "split_sep [] = [[]]"
| "split_sep (c # cs) =
     (if c = sep then [] # split_sep cs
      else (case split_sep cs of
              [] \<Rightarrow> [[c]]
            | p # ps \<Rightarrow> (c # p) # ps))"

definition splitroot :: "str \<Rightarrow> str \<times> str" where
  "splitroot part =
     (case part of
        [] \<Rightarrow> ([], part)
      | c # _ \<Rightarrow>
          if c = sep then
            (let stripped_part = lstrip_sep part in
             if length part - length stripped_part = 2 then ([sep, sep], stripped_part)
             else ([sep], stripped_part))
          else ([], part))"

definition parse_parts :: "str \<Rightarrow> str \<times> str list" where
  "parse_parts part =
     (if part = [] then ([], [])
      else
        (let (root, rel) = splitroot part;
             parsed =
               (if sep \<in> set rel then filter (\<lambda>x. x \<noteq> [] \<and> x \<noteq> [dot]) (split_sep rel)
                else if rel \<noteq> [] \<and> rel \<noteq> [dot] then [rel]
                else [])
         in (root, (if root \<noteq> [] then [root] else []) @ parsed)))"

definition parts :: "str \<Rightarrow> str list" where
  "parts name = snd (parse_parts name)"

definition is_absolute :: "str \<Rightarrow> bool" where
  "is_absolute name = (fst (parse_parts name) \<noteq> [])"

section \<open>base64 and UTF-8\<close>

text \<open>
  \<^verbatim>\<open>base64.b64encode\<close> (RFC 4648, standard alphabet, padded) and
  \<^verbatim>\<open>base64.b64decode\<close> with its default \<^verbatim>\<open>validate=False\<close>, as CPython's
  \<^verbatim>\<open>binascii.a2b_base64\<close> decodes: characters outside the alphabet are skipped, a
  pad character ends the input once the current quad holds two or three characters
  and the pads complete it, and input that ends inside a quad raises
  \<^verbatim>\<open>binascii.Error\<close>. The alphabet is \<^verbatim>\<open>A-Z\<close>, \<^verbatim>\<open>a-z\<close>, \<^verbatim>\<open>0-9\<close>,
  \<^verbatim>\<open>+\<close>, \<^verbatim>\<open>/\<close>, given by the ASCII code of each six-bit value. A six-bit group and the bits left over from the previous
  character never overlap, so the C code's shifts and ORs are written as
  multiplication and addition.
\<close>

definition alphabet_code :: "nat \<Rightarrow> nat" where
  "alphabet_code n =
     (if n < 26 then 65 + n
      else if n < 52 then 71 + n
      else if n < 62 then n - 4
      else if n = 62 then 43
      else 47)"

definition table_b2a_base64 :: "nat \<Rightarrow> 8 word" where
  "table_b2a_base64 n = of_nat (alphabet_code n)"

definition table_a2b_base64 :: "8 word \<Rightarrow> nat option" where
  "table_a2b_base64 c =
     (let k = unat c in
      if 65 \<le> k \<and> k \<le> 90 then Some (k - 65)
      else if 97 \<le> k \<and> k \<le> 122 then Some (k - 71)
      else if 48 \<le> k \<and> k \<le> 57 then Some (k + 4)
      else if k = 43 then Some 62
      else if k = 47 then Some 63
      else None)"

definition BASE64_PAD :: "8 word" where
  "BASE64_PAD = 61"

fun b2a_base64 :: "bytes \<Rightarrow> bytes" where
  "b2a_base64 [] = []"
| "b2a_base64 [a] =
     [table_b2a_base64 (unat a div 4), table_b2a_base64 ((unat a mod 4) * 16),
      BASE64_PAD, BASE64_PAD]"
| "b2a_base64 [a, b] =
     [table_b2a_base64 (unat a div 4),
      table_b2a_base64 ((unat a mod 4) * 16 + unat b div 16),
      table_b2a_base64 ((unat b mod 16) * 4), BASE64_PAD]"
| "b2a_base64 (a # b # c # rest) =
     table_b2a_base64 (unat a div 4)
     # table_b2a_base64 ((unat a mod 4) * 16 + unat b div 16)
     # table_b2a_base64 ((unat b mod 16) * 4 + unat c div 64)
     # table_b2a_base64 (unat c mod 64)
     # b2a_base64 rest"

definition b64encode :: "bytes \<Rightarrow> bytes" where
  "b64encode s = b2a_base64 s"

text \<open>
  The decoder's loop: \<open>quad_pos\<close> is the position in the current group of four
  characters, \<open>leftchar\<close> the bits not yet written, \<open>pads\<close> the pad characters seen
  since the last data character, \<open>out\<close> the bytes written so far.
\<close>

fun a2b_base64 :: "bytes \<Rightarrow> nat \<Rightarrow> nat \<Rightarrow> nat \<Rightarrow> bytes \<Rightarrow> error + bytes" where
  "a2b_base64 [] quad_pos leftchar pads out =
     (if quad_pos \<noteq> 0 then Inl BinasciiError else Inr out)"
| "a2b_base64 (this_ch # rest) quad_pos leftchar pads out =
     (if this_ch = BASE64_PAD then
        (if quad_pos \<ge> 2 then
           (if quad_pos + (pads + 1) \<ge> 4 then Inr out
            else a2b_base64 rest quad_pos leftchar (pads + 1) out)
         else a2b_base64 rest quad_pos leftchar pads out)
      else
        (case table_a2b_base64 this_ch of
           None \<Rightarrow> a2b_base64 rest quad_pos leftchar pads out
         | Some v \<Rightarrow>
             if quad_pos = 0 then a2b_base64 rest 1 v 0 out
             else if quad_pos = 1 then
               a2b_base64 rest 2 (v mod 16) 0 (out @ [of_nat (leftchar * 4 + v div 16)])
             else if quad_pos = 2 then
               a2b_base64 rest 3 (v mod 4) 0 (out @ [of_nat (leftchar * 16 + v div 4)])
             else
               a2b_base64 rest 0 0 0 (out @ [of_nat (leftchar * 64 + v)])))"

text \<open>\<^verbatim>\<open>str.encode("ascii")\<close> as \<^verbatim>\<open>b64decode\<close> applies it to a string argument, and
  \<^verbatim>\<open>bytes.decode("ascii")\<close>.\<close>

definition encode_ascii :: "str \<Rightarrow> error + bytes" where
  "encode_ascii s =
     (if list_all (\<lambda>c. c < 128) s then Inr (map of_nat s) else Inl ValueError)"

definition decode_ascii :: "bytes \<Rightarrow> error + str" where
  "decode_ascii b =
     (if list_all (\<lambda>c. unat c < 128) b then Inr (map unat b) else Inl UnicodeDecodeError)"

definition b64decode :: "pyval \<Rightarrow> error + bytes" where
  "b64decode s =
     (case s of
        PyInt _ \<Rightarrow> Inl TypeError
      | PyStr t \<Rightarrow>
          (case encode_ascii t of
             Inl e \<Rightarrow> Inl e
           | Inr b \<Rightarrow> a2b_base64 b 0 0 0 []))"

text \<open>\<^verbatim>\<open>str.encode("utf-8")\<close>: one to four bytes per code point; a surrogate
  (U+D800 to U+DFFF) cannot be encoded. The code points of a Python string are below
  \<open>0x110000\<close>.\<close>

definition utf8_char :: "nat \<Rightarrow> error + bytes" where
  "utf8_char c =
     (if c < 0x80 then Inr [of_nat c]
      else if c < 0x800 then Inr [of_nat (0xC0 + c div 64), of_nat (0x80 + c mod 64)]
      else if 0xD800 \<le> c \<and> c < 0xE000 then Inl UnicodeEncodeError
      else if c < 0x10000 then
        Inr [of_nat (0xE0 + c div 4096), of_nat (0x80 + (c div 64) mod 64),
             of_nat (0x80 + c mod 64)]
      else
        Inr [of_nat (0xF0 + c div 262144), of_nat (0x80 + (c div 4096) mod 64),
             of_nat (0x80 + (c div 64) mod 64), of_nat (0x80 + c mod 64)])"

fun encode_utf8 :: "str \<Rightarrow> error + bytes" where
  "encode_utf8 [] = Inr []"
| "encode_utf8 (c # cs) =
     (case utf8_char c of
        Inl e \<Rightarrow> Inl e
      | Inr b \<Rightarrow> (case encode_utf8 cs of Inl e \<Rightarrow> Inl e | Inr bs \<Rightarrow> Inr (b @ bs)))"

section \<open>snekio.py: FileAttachment\<close>

text \<open>The dataclass \<^verbatim>\<open>FileAttachment(path: str, content: T)\<close> with \<open>T\<close> either
  \<^verbatim>\<open>str\<close> or \<^verbatim>\<open>bytes\<close>. Two attachments are equal when both fields are; a
  \<^verbatim>\<open>str\<close> never equals a \<^verbatim>\<open>bytes\<close>.\<close>

datatype content = Text str | Bytes bytes

record FileAttachment =
  path :: str
  content :: content

definition from_dict :: "dict \<Rightarrow> error + FileAttachment" where
  "from_dict data =
     (case data (lit ''name'') of
        None \<Rightarrow> Inl KeyError
      | Some (PyInt _) \<Rightarrow> Inl TypeError
      | Some (PyStr name) \<Rightarrow>
          if is_absolute name then Inl IllegalPathError
          else
            (case parts name of
               [] \<Rightarrow> Inl IndexError
             | part0 # _ \<Rightarrow>
                 if set part0 \<inter> {backslash, sep} \<noteq> {} then Inl IllegalPathError
                 else if list_ex (\<lambda>part. set part = {dot}) (parts name)
                   then Inl IllegalPathError
                 else
                   (case b64decode
                           (case data (lit ''content'') of None \<Rightarrow> PyStr [] | Some v \<Rightarrow> v) of
                      Inl e \<Rightarrow> Inl e
                    | Inr c \<Rightarrow> Inr \<lparr>path = name, content = Bytes c\<rparr>)))"

definition size_of :: "FileAttachment \<Rightarrow> nat" where
  "size_of a = (case content a of Text t \<Rightarrow> length t | Bytes b \<Rightarrow> length b)"

definition as_bytes :: "FileAttachment \<Rightarrow> error + bytes" where
  "as_bytes a = (case content a of Bytes b \<Rightarrow> Inr b | Text t \<Rightarrow> encode_utf8 t)"

definition to_dict :: "FileAttachment \<Rightarrow> error + dict" where
  "to_dict a =
     (case as_bytes a of
        Inl e \<Rightarrow> Inl e
      | Inr b \<Rightarrow>
          (case decode_ascii (b64encode b) of
             Inl e \<Rightarrow> Inl e
           | Inr c \<Rightarrow>
               Inr [lit ''path'' \<mapsto> PyStr (path a),
                    lit ''size'' \<mapsto> PyInt (int (size_of a)),
                    lit ''content'' \<mapsto> PyStr c]))"

text \<open>\<^verbatim>\<open>from_path(cls, file)\<close>: the file's base name and its bytes. A \<^verbatim>\<open>Path\<close> that
  names an entry of a directory is the pair of the entry's name and what is stored
  there.\<close>

datatype node = RegularFile bytes | Directory | Other

fun is_file :: "node \<Rightarrow> bool" where
  "is_file (RegularFile _) = True"
| "is_file _ = False"

fun read_bytes :: "node \<Rightarrow> error + bytes" where
  "read_bytes (RegularFile b) = Inr b"
| "read_bytes Directory = Inl IsADirectoryError"
| "read_bytes Other = Inl OSError"

definition from_path :: "str \<times> node \<Rightarrow> error + FileAttachment" where
  "from_path file =
     (case read_bytes (snd file) of
        Inl e \<Rightarrow> Inl e
      | Inr b \<Rightarrow> Inr \<lparr>path = fst file, content = Bytes b\<rparr>)"

text \<open>A call of \<^verbatim>\<open>FileAttachment.from_path\<close> with the positional arguments a call
  site passes: the classmethod takes exactly one argument besides \<open>cls\<close>, and Python
  raises \<^verbatim>\<open>TypeError\<close> for any other number.\<close>

datatype pyarg = ArgPath "str \<times> node" | ArgInt nat

definition from_path_call :: "pyarg list \<Rightarrow> error + FileAttachment" where
  "from_path_call args =
     (case args of
        [ArgPath file] \<Rightarrow> from_path file
      | [ArgInt _] \<Rightarrow> Inl AttributeError
      | _ \<Rightarrow> Inl TypeError)"

section \<open>memfs.py: the world the lifecycle acts on\<close>

record MemFSOptions =
  MEMFS_SIZE :: str
  MAX_FILES :: nat
  MAX_FILE_SIZE :: nat

definition MemFSOptions_default :: MemFSOptions where
  "MemFSOptions_default =
     \<lparr>MEMFS_SIZE = lit ''32M'', MAX_FILES = 2, MAX_FILE_SIZE = 32 * 1024 * 1024\<rparr>"

text \<open>
  The directory \<^verbatim>\<open>/snekbox/memfs\<close>: what is stored under each name. A name drawn
  from \<^verbatim>\<open>str(uuid4())\<close> is a single path component, so the path
  \<^verbatim>\<open>Path("/snekbox/memfs", name)\<close> is identified with \<open>name\<close>, and its
  \<^verbatim>\<open>.name\<close> is \<open>name\<close>. A directory there has its permission bits, whether a
  tmpfs is mounted on it, and its \<^verbatim>\<open>home\<close> entry (a directory with its mode and its
  entries in the order the system lists them, or something that is not a directory).
\<close>

datatype home = HomeDir nat "(str \<times> node) list" | HomeNotDir

record tmpdir =
  mode :: nat
  tmpfs :: bool
  home :: "home option"

datatype fs_entry = IsDir tmpdir | NotDir nat

text \<open>What the lifecycle does to the outside, in order.\<close>

datatype event =
    Acquire | Release
  | Uuid4 str
  | Mkdir str | Mount str str | Umount str | Rmtree str
  | Chmod str nat | MkdirHome str | ChmodHome str nat
  | PoolAdd str | PoolRemove str
  | Warning str

record world =
  fs :: "str \<rightharpoonup> fs_entry"
  assigned_names :: "str set"
  uuid_calls :: nat
  events :: "event list"

text \<open>
  What the code does not decide: the name the \<open>i\<close>-th call of \<^verbatim>\<open>uuid4\<close> returns,
  whether the \<^verbatim>\<open>mount\<close> and \<^verbatim>\<open>umount\<close> commands exit with status 0, and what
  \<^verbatim>\<open>rmtree(ignore_errors=True)\<close> leaves at the path (\<open>None\<close> when it removed
  everything). The process is taken to own the tree, so \<^verbatim>\<open>mkdir\<close> and
  \<^verbatim>\<open>chmod\<close> fail only for the reasons written out below.
\<close>

record os =
  uuid4 :: "nat \<Rightarrow> str"
  mount_ok :: "str \<Rightarrow> bool"
  umount_ok :: "str \<Rightarrow> bool"
  rmtree_left :: "str \<Rightarrow> fs_entry option"

text \<open>Permission bits, written by their three octal digits: \<open>octal 5 5 5\<close> is
  Python's \<^verbatim>\<open>0o555\<close>. A directory that \<^verbatim>\<open>mkdir\<close> creates gets the mode the
  umask leaves (written \<open>octal 7 5 5\<close>), the root of a fresh tmpfs the sticky, fully
  open mode; the code sets the mode it wants right after either.\<close>

definition octal :: "nat \<Rightarrow> nat \<Rightarrow> nat \<Rightarrow> nat" where
  "octal a b c = a * 64 + b * 8 + c"

definition emit :: "event \<Rightarrow> world \<Rightarrow> world" where
  "emit e w = w\<lparr>events := events w @ [e]\<rparr>"

definition path_exists :: "world \<Rightarrow> str \<Rightarrow> bool" where
  "path_exists w p = (fs w p \<noteq> None)"

definition is_dir :: "world \<Rightarrow> str \<Rightarrow> bool" where
  "is_dir w p = (case fs w p of Some (IsDir _) \<Rightarrow> True | _ \<Rightarrow> False)"

text \<open>\<^verbatim>\<open>Path.chmod\<close> on a root path, and \<^verbatim>\<open>mkdir\<close>/\<^verbatim>\<open>chmod\<close> on its \<^verbatim>\<open>home\<close>.\<close>

definition chmod :: "str \<Rightarrow> nat \<Rightarrow> world \<Rightarrow> error option \<times> world" where
  "chmod p m w =
     (case fs w p of
        None \<Rightarrow> (Some FileNotFoundError, w)
      | Some (NotDir _) \<Rightarrow> (None, emit (Chmod p m) (w\<lparr>fs := (fs w)(p \<mapsto> NotDir m)\<rparr>))
      | Some (IsDir d) \<Rightarrow>
          (None, emit (Chmod p m) (w\<lparr>fs := (fs w)(p \<mapsto> IsDir (d\<lparr>mode := m\<rparr>))\<rparr>)))"

definition mkdir_home :: "str \<Rightarrow> world \<Rightarrow> error option \<times> world" where
  "mkdir_home p w =
     (case fs w p of
        None \<Rightarrow> (Some FileNotFoundError, w)
      | Some (NotDir _) \<Rightarrow> (Some OSError, w)
      | Some (IsDir d) \<Rightarrow>
          (case home d of
             Some _ \<Rightarrow> (Some FileExistsError, w)
           | None \<Rightarrow>
               (None, emit (MkdirHome p)
                  (w\<lparr>fs := (fs w)(p \<mapsto> IsDir (d\<lparr>home := Some (HomeDir (octal 7 5 5) [])\<rparr>))\<rparr>))))"

definition chmod_home :: "str \<Rightarrow> nat \<Rightarrow> world \<Rightarrow> error option \<times> world" where
  "chmod_home p m w =
     (case fs w p of
        Some (IsDir d) \<Rightarrow>
          (case home d of
             Some (HomeDir _ es) \<Rightarrow>
               (None, emit (ChmodHome p m)
                  (w\<lparr>fs := (fs w)(p \<mapsto> IsDir (d\<lparr>home := Some (HomeDir m es)\<rparr>))\<rparr>))
           | Some HomeNotDir \<Rightarrow> (None, emit (ChmodHome p m) w)
           | None \<Rightarrow> (Some FileNotFoundError, w))
      | _ \<Rightarrow> (Some FileNotFoundError, w))"

section \<open>memfs.py: the mount controller\<close>

definition mount_tmpfs :: "MemFSOptions \<Rightarrow> os \<Rightarrow> str \<Rightarrow> world \<Rightarrow> (error + str) \<times> world" where
  "mount_tmpfs opts env name w =
     (if \<not> path_exists w name \<or> \<not> is_dir w name then
        (case fs w name of
           Some _ \<Rightarrow> (Inl FileExistsError, w)
         | None \<Rightarrow>
             (let w1 = emit (Mkdir name)
                         (w\<lparr>fs := (fs w)(name \<mapsto> IsDir \<lparr>mode = octal 7 5 5, tmpfs = False, home = None\<rparr>)\<rparr>);
                  w2 = snd (chmod name (octal 7 7 7) w1)
              in if mount_ok env name then
                   (let w3 = emit (Mount name (MEMFS_SIZE opts))
                               (w2\<lparr>fs := (fs w2)(name \<mapsto>
                                      IsDir \<lparr>mode = 512 + octal 7 7 7, tmpfs = True, home = None\<rparr>)\<rparr>)
                    in (Inr name, snd (chmod name (octal 7 1 1) w3)))
                 else (Inl CalledProcessError, w2)))
      else (Inr name, w))"

definition unmount_tmpfs :: "os \<Rightarrow> str \<Rightarrow> world \<Rightarrow> error option \<times> world" where
  "unmount_tmpfs env name w =
     (if path_exists w name \<and> is_dir w name then
        (if umount_ok env name then
           (let w1 = emit (Umount name) w
            in (None, emit (Rmtree name) (w1\<lparr>fs := (fs w1)(name := rmtree_left env name)\<rparr>)))
         else (Some CalledProcessError, w))
      else (None, w))"

section \<open>memfs.py: MemoryTempDir\<close>

text \<open>The object's only attribute is \<^verbatim>\<open>self.path\<close> (\<open>None\<close> before acquisition and
  after release), here the field \<open>mpath\<close>, since \<open>path\<close> is the attachment's field.
  With paths identified with names, the properties \<^verbatim>\<open>self.name\<close> and
  \<^verbatim>\<open>self.home\<close> are read off \<open>mpath\<close>: the name is the path, and \<^verbatim>\<open>home\<close> is
  the \<open>home\<close> entry of the directory at the path. The class attributes
  \<^verbatim>\<open>assigned_names\<close> and \<^verbatim>\<open>assignment_lock\<close> are part of the world; taking and
  releasing the lock are events.\<close>

record MemoryTempDir =
  mpath :: "str option"

text \<open>\<^verbatim>\<open>__enter__\<close>: the body of \<^verbatim>\<open>for _ in range(10)\<close> with the number of rounds
  left, then the whole method inside \<^verbatim>\<open>with self.assignment_lock\<close>, which releases
  the lock on every way out.\<close>

fun enter_loop ::
  "MemFSOptions \<Rightarrow> os \<Rightarrow> nat \<Rightarrow> MemoryTempDir \<Rightarrow> world \<Rightarrow> error option \<times> MemoryTempDir \<times> world"
where
  "enter_loop opts env 0 self w = (Some RuntimeError, self, w)"
| "enter_loop opts env (Suc k) self w =
     (let name = uuid4 env (uuid_calls w);
          w0 = emit (Uuid4 name) (w\<lparr>uuid_calls := Suc (uuid_calls w)\<rparr>)
      in if name \<notin> assigned_names w0 then
           (case mount_tmpfs opts env name w0 of
              (Inl e, w1) \<Rightarrow> (Some e, self, w1)
            | (Inr p, w1) \<Rightarrow>
                (let self1 = self\<lparr>mpath := Some p\<rparr> in
                 case chmod p (octal 5 5 5) w1 of
                   (Some e, w2) \<Rightarrow> (Some e, self1, w2)
                 | (None, w2) \<Rightarrow>
                     (case mkdir_home p w2 of
                        (Some e, w3) \<Rightarrow> (Some e, self1, w3)
                      | (None, w3) \<Rightarrow>
                          (case chmod_home p (octal 7 7 7) w3 of
                             (Some e, w4) \<Rightarrow> (Some e, self1, w4)
                           | (None, w4) \<Rightarrow>
                               (None, self1,
                                emit (PoolAdd name)
                                  (w4\<lparr>assigned_names := insert name (assigned_names w4)\<rparr>))))))
         else enter_loop opts env k self w0)"

definition enter ::
  "MemFSOptions \<Rightarrow> os \<Rightarrow> MemoryTempDir \<Rightarrow> world \<Rightarrow> error option \<times> MemoryTempDir \<times> world"
where
  "enter opts env self w =
     (case enter_loop opts env 10 self (emit Acquire w) of
        (r, self', w') \<Rightarrow> (r, self', emit Release w'))"

text \<open>\<^verbatim>\<open>allow_write\<close>, a \<^verbatim>\<open>@contextmanager\<close> generator, around a \<^verbatim>\<open>with\<close> body. An
  exception of the body is thrown into the generator at its \<^verbatim>\<open>yield\<close>; the
  generator does not catch it, so the statement after the \<^verbatim>\<open>yield\<close> does not run
  and the exception leaves the \<^verbatim>\<open>with\<close> statement.\<close>

definition allow_write ::
  "MemoryTempDir \<Rightarrow> (world \<Rightarrow> error option \<times> world) \<Rightarrow> world \<Rightarrow> error option \<times> world"
where
  "allow_write self body w =
     (case mpath self of
        None \<Rightarrow> (Some AttributeError, w)
      | Some p \<Rightarrow>
          (case chmod p (octal 7 7 7) w of
             (Some e, w1) \<Rightarrow> (Some e, w1)
           | (None, w1) \<Rightarrow>
               (case body w1 of
                  (Some e, w2) \<Rightarrow> (Some e, w2)
                | (None, w2) \<Rightarrow> chmod p (octal 5 5 5) w2)))"

text \<open>\<^verbatim>\<open>attachments\<close>, a generator: the attachments it yields until it is exhausted
  or raises, and the exception if it raises. \<^verbatim>\<open>self.home.glob("output*")\<close> lists the
  entries of \<^verbatim>\<open>home\<close> whose name starts with \<^verbatim>\<open>output\<close> (nothing when \<^verbatim>\<open>home\<close> is
  not a directory).\<close>

definition glob_output :: "world \<Rightarrow> str \<Rightarrow> (str \<times> node) list" where
  "glob_output w p =
     (case fs w p of
        Some (IsDir d) \<Rightarrow>
          (case home d of
             Some (HomeDir _ es) \<Rightarrow>
               filter (\<lambda>file. take (length (lit ''output'')) (fst file) = lit ''output'') es
           | _ \<Rightarrow> [])
      | _ \<Rightarrow> [])"

fun attachments_loop ::
  "MemFSOptions \<Rightarrow> (str \<times> node) list \<Rightarrow> FileAttachment list \<times> error option"
where
  "attachments_loop opts [] = ([], None)"
| "attachments_loop opts (file # rest) =
     (if is_file (snd file) then
        (case from_path_call [ArgPath file, ArgInt (MAX_FILE_SIZE opts)] of
           Inl e \<Rightarrow> ([], Some e)
         | Inr a \<Rightarrow>
             (case attachments_loop opts rest of (as, r) \<Rightarrow> (a # as, r)))
      else attachments_loop opts rest)"

definition attachments ::
  "MemFSOptions \<Rightarrow> MemoryTempDir \<Rightarrow> world \<Rightarrow> FileAttachment list \<times> error option"
where
  "attachments opts self w =
     (case mpath self of
        None \<Rightarrow> ([], Some AttributeError)
      | Some p \<Rightarrow> attachments_loop opts (glob_output w p))"

text \<open>\<^verbatim>\<open>cleanup\<close>. \<^verbatim>\<open>set.remove\<close> raises \<^verbatim>\<open>KeyError\<close> for a name that is not in the
  set; the lock is released on the way out, and \<^verbatim>\<open>self.path\<close> keeps its value
  when an exception leaves the method.\<close>

definition cleanup ::
  "os \<Rightarrow> MemoryTempDir \<Rightarrow> world \<Rightarrow> error option \<times> MemoryTempDir \<times> world"
where
  "cleanup env self w =
     (case mpath self of
        None \<Rightarrow> (None, self, w)
      | Some name \<Rightarrow>
          (case unmount_tmpfs env name w of
             (Some e, w1) \<Rightarrow> (Some e, self, w1)
           | (None, w1) \<Rightarrow>
               if \<not> path_exists w1 name then
                 (let w2 = emit Acquire w1
                  in if name \<in> assigned_names w2 then
                       (None, self\<lparr>mpath := None\<rparr>,
                        emit Release
                          (emit (PoolRemove name)
                             (w2\<lparr>assigned_names := assigned_names w2 - {name}\<rparr>)))
                     else (Some KeyError, self, emit Release w2))
               else (None, self\<lparr>mpath := None\<rparr>, emit (Warning name) w1)))"

section \<open>Notions used to state the properties\<close>

text \<open>A name passes both path checks of \<^verbatim>\<open>from_dict\<close>: the path is not absolute, it
  has a first part, that part holds neither separator character, and no part is made
  of dots only.\<close>

definition accepted_name :: "str \<Rightarrow> bool" where
  "accepted_name name =
     (\<not> is_absolute name \<and> parts name \<noteq> []
      \<and> set (hd (parts name)) \<inter> {backslash, sep} = {}
      \<and> \<not> list_ex (\<lambda>part. set part = {dot}) (parts name))"

text \<open>\<^verbatim>\<open>FileAttachment.from_dict(a.to_dict())\<close>.\<close>

definition from_dict_of_to_dict :: "FileAttachment \<Rightarrow> error + FileAttachment" where
  "from_dict_of_to_dict a = (case to_dict a of Inl e \<Rightarrow> Inl e | Inr d \<Rightarrow> from_dict d)"

text \<open>The state of a directory that \<^verbatim>\<open>__enter__\<close> has provisioned: root with mode
  \<^verbatim>\<open>0o555\<close> on a mounted tmpfs, and an empty \<^verbatim>\<open>home\<close> with mode \<^verbatim>\<open>0o777\<close>.\<close>

definition provisioned :: fs_entry where
  "provisioned =
     IsDir \<lparr>mode = octal 5 5 5, tmpfs = True, home = Some (HomeDir (octal 7 7 7) [])\<rparr>"

text \<open>The names that the next \<open>k\<close> calls of \<^verbatim>\<open>uuid4\<close> return, as events, and what
  provisioning the directory \<open>n\<close> does, in order.\<close>

definition drawn :: "os \<Rightarrow> world \<Rightarrow> nat \<Rightarrow> event list" where
  "drawn env w k = map (\<lambda>j. Uuid4 (uuid4 env (uuid_calls w + j))) [0..<k]"

definition provision_events :: "MemFSOptions \<Rightarrow> str \<Rightarrow> event list" where
  "provision_events opts n =
     [Mkdir n, Chmod n (octal 7 7 7), Mount n (MEMFS_SIZE opts), Chmod n (octal 7 1 1),
      Chmod n (octal 5 5 5), MkdirHome n, ChmodHome n (octal 7 7 7), PoolAdd n]"

text \<open>Concrete inputs: an environment whose \<open>i\<close>-th name is \<^verbatim>\<open>uuid-\<close> followed by the
  character with code \<open>48 + i\<close> (a digit for \<open>i < 10\<close>), in which \<^verbatim>\<open>mount\<close> and
  \<^verbatim>\<open>umount\<close> succeed and \<^verbatim>\<open>rmtree\<close> leaves what \<open>left\<close> says; and a world in which
  exactly the given names are provisioned and assigned.\<close>

definition os_example :: "(str \<Rightarrow> fs_entry option) \<Rightarrow> os" where
  "os_example left =
     \<lparr>uuid4 = (\<lambda>i. lit ''uuid-'' @ [48 + i]), mount_ok = (\<lambda>_. True),
      umount_ok = (\<lambda>_. True), rmtree_left = left\<rparr>"

definition world_of :: "str list \<Rightarrow> world" where
  "world_of names =
     \<lparr>fs = map_of (map (\<lambda>n. (n, provisioned)) names), assigned_names = set names,
      uuid_calls = 0, events = []\<rparr>"

text \<open>A world with the one directory \<open>n\<close>, provisioned, whose \<^verbatim>\<open>home\<close> holds the given
  entries.\<close>

definition world_with_home :: "str \<Rightarrow> (str \<times> node) list \<Rightarrow> world" where
  "world_with_home n es =
     \<lparr>fs = [n \<mapsto> IsDir \<lparr>mode = octal 5 5 5, tmpfs = True,
                          home = Some (HomeDir (octal 7 7 7) es)\<rparr>],
      assigned_names = {n}, uuid_calls = 1, events = []\<rparr>"

section \<open>Facts about the codec\<close>

subsection \<open>base64: decoding an encoding gives the bytes back\<close>

lemma unat_byte_lt: "unat (x :: 8 word) < 256"
  using unsigned_less [of x, where ?'a = nat] by simp

lemma alphabet_code_lt: "alphabet_code n < 128"
  unfolding alphabet_code_def by (simp; arith)

lemma unat_table_b2a: "unat (table_b2a_base64 n) = alphabet_code n"
  using alphabet_code_lt [of n] by (simp add: table_b2a_base64_def unat_of_nat)

lemma table_a2b_code:
  "n < 64 \<Longrightarrow>
   (let k = alphabet_code n in
      if 65 \<le> k \<and> k \<le> 90 then Some (k - 65)
      else if 97 \<le> k \<and> k \<le> 122 then Some (k - 71)
      else if 48 \<le> k \<and> k \<le> 57 then Some (k + 4)
      else if k = 43 then Some 62
      else if k = 47 then Some 63
      else None) = Some n"
proof -
  assume n: "n < 64"
  consider "n < 26" | "26 \<le> n" "n < 52" | "52 \<le> n" "n < 62" | "n = 62" | "n = 63"
    using n by linarith
  then show ?thesis
  proof cases
    case 1
    then have "alphabet_code n = 65 + n" by (simp add: alphabet_code_def)
    with 1 show ?thesis by (simp add: Let_def)
  next
    case 2
    then have "alphabet_code n = 71 + n" by (simp add: alphabet_code_def)
    with 2 show ?thesis by (simp add: Let_def)
  next
    case 3
    then have "alphabet_code n = n - 4" by (simp add: alphabet_code_def)
    with 3 show ?thesis by (simp add: Let_def) arith
  next
    case 4
    then show ?thesis by (simp add: alphabet_code_def)
  next
    case 5
    then show ?thesis by (simp add: alphabet_code_def)
  qed
qed

lemma table_a2b_b2a: "n < 64 \<Longrightarrow> table_a2b_base64 (table_b2a_base64 n) = Some n"
  unfolding table_a2b_base64_def unat_table_b2a by (rule table_a2b_code)

lemma table_b2a_not_pad: "table_b2a_base64 n \<noteq> BASE64_PAD"
proof
  assume "table_b2a_base64 n = BASE64_PAD"
  then have "unat (table_b2a_base64 n) = 61" by (simp add: BASE64_PAD_def)
  then have "alphabet_code n = 61" by (simp only: unat_table_b2a)
  then show False
    unfolding alphabet_code_def by (simp split: if_splits; arith)
qed

lemma table_b2a_ascii: "unat (table_b2a_base64 n) < 128"
  by (simp add: unat_table_b2a alphabet_code_lt)

lemma a2b_step0:
  "n < 64 \<Longrightarrow> a2b_base64 (table_b2a_base64 n # rest) 0 l p out = a2b_base64 rest 1 n 0 out"
  by (simp add: table_a2b_b2a table_b2a_not_pad)

lemma a2b_step1:
  "n < 64 \<Longrightarrow> a2b_base64 (table_b2a_base64 n # rest) 1 l p out =
     a2b_base64 rest 2 (n mod 16) 0 (out @ [of_nat (l * 4 + n div 16)])"
  by (simp add: table_a2b_b2a table_b2a_not_pad)

lemma a2b_step2:
  "n < 64 \<Longrightarrow> a2b_base64 (table_b2a_base64 n # rest) 2 l p out =
     a2b_base64 rest 3 (n mod 4) 0 (out @ [of_nat (l * 16 + n div 4)])"
  by (simp add: table_a2b_b2a table_b2a_not_pad)

lemma a2b_step3:
  "n < 64 \<Longrightarrow> a2b_base64 (table_b2a_base64 n # rest) 3 l p out =
     a2b_base64 rest 0 0 0 (out @ [of_nat (l * 64 + n)])"
  by (simp add: table_a2b_b2a table_b2a_not_pad)

lemma a2b_pad2: "a2b_base64 [BASE64_PAD, BASE64_PAD] 2 l 0 out = Inr out"
  by simp

lemma a2b_pad1: "a2b_base64 [BASE64_PAD] 3 l 0 out = Inr out"
  by simp

lemma sextet_bounds:
  fixes a b c :: nat
  shows "a < 256 \<Longrightarrow> a div 4 < 64"
    and "b < 256 \<Longrightarrow> a mod 4 * 16 + b div 16 < 64"
    and "c < 256 \<Longrightarrow> b mod 16 * 4 + c div 64 < 64"
    and "c mod 64 < 64"
    and "a mod 4 * 16 < 64"
    and "b mod 16 * 4 < 64"
  by simp_all (arith+)?

lemma sextet_join1:
  fixes a b :: nat
  shows "b < 256 \<Longrightarrow> a div 4 * 4 + (a mod 4 * 16 + b div 16) div 16 = a"
  by (simp add: div_mult2_eq[symmetric])

lemma sextet_join2:
  fixes a b c :: nat
  shows "b < 256 \<Longrightarrow> c < 256 \<Longrightarrow>
    (a mod 4 * 16 + b div 16) mod 16 * 16 + (b mod 16 * 4 + c div 64) div 4 = b"
proof -
  assume b: "b < 256" and c: "c < 256"
  have 1: "(a mod 4 * 16 + b div 16) mod 16 = b div 16" using b by simp
  have 2: "(b mod 16 * 4 + c div 64) div 4 = b mod 16" using c by simp
  show ?thesis unfolding 1 2 by simp
qed

lemma sextet_join3:
  fixes b c :: nat
  shows "c < 256 \<Longrightarrow> (b mod 16 * 4 + c div 64) mod 4 * 64 + c mod 64 = c"
proof -
  assume c: "c < 256"
  have 1: "(b mod 16 * 4 + c div 64) mod 4 = c div 64" using c by simp
  show ?thesis unfolding 1 by simp
qed

lemma sextet_join2':
  fixes a b :: nat
  shows "b < 256 \<Longrightarrow> (a mod 4 * 16 + b div 16) mod 16 * 16 + (b mod 16 * 4) div 4 = b"
  using sextet_join2 [of b 0 a] by simp

lemma sextet_join1':
  fixes a :: nat
  shows "a div 4 * 4 + (a mod 4 * 16) div 16 = a"
  using sextet_join1 [of 0 a] by simp

lemma of_nat_unat_byte: "(of_nat (unat a) :: 8 word) = a"
  by simp

lemma a2b_b2a:
  "a2b_base64 (b2a_base64 s) 0 l p out = Inr (out @ s)"
proof (induction s arbitrary: l p out rule: b2a_base64.induct)
  case 1
  show ?case by simp
next
  case (2 a)
  have a: "unat a < 256" by (rule unat_byte_lt)
  have "a2b_base64 (b2a_base64 [a]) 0 l p out =
        a2b_base64 [BASE64_PAD, BASE64_PAD] 2 ((unat a mod 4 * 16) mod 16) 0
          (out @ [of_nat (unat a div 4 * 4 + (unat a mod 4 * 16) div 16)])"
    by (simp only: b2a_base64.simps a2b_step0 [OF sextet_bounds(1) [OF a]]
          a2b_step1 [OF sextet_bounds(5)])
  also have "\<dots> = Inr (out @ [a])"
    by (simp only: a2b_pad2 sextet_join1' of_nat_unat_byte)
  finally show ?case .
next
  case (3 a b)
  have a: "unat a < 256" and b: "unat b < 256" by (rule unat_byte_lt)+
  have "a2b_base64 (b2a_base64 [a, b]) 0 l p out =
        a2b_base64 [BASE64_PAD] 3 ((unat b mod 16 * 4) mod 4) 0
          ((out @ [of_nat (unat a div 4 * 4 + (unat a mod 4 * 16 + unat b div 16) div 16)])
             @ [of_nat ((unat a mod 4 * 16 + unat b div 16) mod 16 * 16
                        + (unat b mod 16 * 4) div 4)])"
    by (simp only: b2a_base64.simps a2b_step0 [OF sextet_bounds(1) [OF a]]
          a2b_step1 [OF sextet_bounds(2) [OF b]] a2b_step2 [OF sextet_bounds(6)])
  also have "\<dots> = Inr (out @ [a, b])"
    by (simp only: a2b_pad1 sextet_join1 [OF b] sextet_join2' [OF b] of_nat_unat_byte
          append_assoc append_Cons append_Nil)
  finally show ?case .
next
  case (4 a b c rest)
  have a: "unat a < 256" and b: "unat b < 256" and c: "unat c < 256" by (rule unat_byte_lt)+
  have "a2b_base64 (b2a_base64 (a # b # c # rest)) 0 l p out =
        a2b_base64 (b2a_base64 rest) 0 0 0
          (((out @ [of_nat (unat a div 4 * 4 + (unat a mod 4 * 16 + unat b div 16) div 16)])
             @ [of_nat ((unat a mod 4 * 16 + unat b div 16) mod 16 * 16
                        + (unat b mod 16 * 4 + unat c div 64) div 4)])
             @ [of_nat ((unat b mod 16 * 4 + unat c div 64) mod 4 * 64 + unat c mod 64)])"
    by (simp only: b2a_base64.simps a2b_step0 [OF sextet_bounds(1) [OF a]]
          a2b_step1 [OF sextet_bounds(2) [OF b]] a2b_step2 [OF sextet_bounds(3) [OF c]]
          a2b_step3 [OF sextet_bounds(4)])
  also have "\<dots> = Inr (out @ a # b # c # rest)"
    by (simp only: "4.IH" sextet_join1 [OF b] sextet_join2 [OF b c] sextet_join3 [OF c]
          of_nat_unat_byte append_assoc append_Cons append_Nil)
  finally show ?case .
qed

subsection \<open>Paths, dictionaries and the steps of from_dict\<close>

lemma lit_keys_distinct:
  "lit ''name'' \<noteq> lit ''path''" "lit ''name'' \<noteq> lit ''size''"
  "lit ''name'' \<noteq> lit ''content''" "lit ''content'' \<noteq> lit ''path''"
  "lit ''content'' \<noteq> lit ''size''" "lit ''path'' \<noteq> lit ''size''"
  by (simp_all add: lit_def)

lemmas path_eval =
  is_absolute_def parts_def parse_parts_def splitroot_def lit_def sep_def dot_def backslash_def

lemmas b64_eval =
  b64decode_def encode_ascii_def table_a2b_base64_def BASE64_PAD_def blit_def

lemma is_absolute_parts: "is_absolute name \<Longrightarrow> parts name \<noteq> []"
  by (auto simp: is_absolute_def parts_def parse_parts_def Let_def split: prod.splits if_splits)

lemma from_dict_accepted:
  "data (lit ''name'') = Some (PyStr name) \<Longrightarrow> accepted_name name \<Longrightarrow>
   from_dict data =
     (case b64decode (case data (lit ''content'') of None \<Rightarrow> PyStr [] | Some v \<Rightarrow> v) of
        Inl e \<Rightarrow> Inl e
      | Inr c \<Rightarrow> Inr \<lparr>path = name, content = Bytes c\<rparr>)"
  by (cases "parts name") (simp_all add: from_dict_def accepted_name_def)

lemma from_dict_rejected:
  "data (lit ''name'') = Some (PyStr name) \<Longrightarrow> parts name \<noteq> [] \<Longrightarrow>
   \<not> accepted_name name \<Longrightarrow> from_dict data = Inl IllegalPathError"
  by (cases "parts name") (auto simp add: from_dict_def accepted_name_def)

lemma b64decode_empty: "b64decode (PyStr []) = Inr []"
  by (simp add: b64decode_def encode_ascii_def)

lemma b2a_base64_ascii: "list_all (\<lambda>c. unat c < 128) (b2a_base64 s)"
  by (induction s rule: b2a_base64.induct) (simp_all add: table_b2a_ascii BASE64_PAD_def)

lemma decode_ascii_b64encode: "decode_ascii (b64encode b) = Inr (map unat (b64encode b))"
  by (simp add: decode_ascii_def b64encode_def b2a_base64_ascii)

lemma encode_ascii_unat:
  "list_all (\<lambda>c. unat c < 128) b \<Longrightarrow> encode_ascii (map unat b) = Inr b"
proof -
  assume "list_all (\<lambda>c. unat c < 128) b"
  then have "list_all (\<lambda>c. c < 128) (map unat b)"
    by (induction b) simp_all
  moreover have "map of_nat (map unat b) = b"
    by (induction b) simp_all
  ultimately show ?thesis
    by (simp add: encode_ascii_def)
qed

lemma b64decode_b64encode: "b64decode (PyStr (map unat (b64encode b))) = Inr b"
  using encode_ascii_unat [OF b2a_base64_ascii, of b]
  by (simp add: b64decode_def b64encode_def a2b_b2a)

lemma a2b_base64_error: "a2b_base64 s q l p out = Inl e \<Longrightarrow> e = BinasciiError"
  by (induction s q l p out rule: a2b_base64.induct) (auto split: if_splits option.splits)

lemma b64decode_error:
  "b64decode v = Inl e \<Longrightarrow> e \<in> {TypeError, ValueError, BinasciiError}"
  by (auto simp: b64decode_def encode_ascii_def
      split: pyval.splits sum.splits if_splits dest: a2b_base64_error)

lemma from_dict_error:
  "from_dict data = Inl e \<Longrightarrow>
   e \<in> {KeyError, TypeError, IndexError, IllegalPathError, ValueError, BinasciiError}"
  by (auto simp: from_dict_def
      split: option.splits pyval.splits if_splits list.splits sum.splits
      dest!: b64decode_error)

lemma to_dict_bytes:
  "content a = Bytes b \<Longrightarrow>
   to_dict a =
     Inr [lit ''path'' \<mapsto> PyStr (path a), lit ''size'' \<mapsto> PyInt (int (length b)),
          lit ''content'' \<mapsto> PyStr (map unat (b64encode b))]"
  by (simp add: to_dict_def as_bytes_def decode_ascii_b64encode size_of_def)

lemma to_dict_no_name: "to_dict a = Inr d \<Longrightarrow> d (lit ''name'') = None"
  by (auto simp: to_dict_def lit_keys_distinct split: sum.splits)

lemma from_dict_of_to_dict_never: "from_dict_of_to_dict a \<noteq> Inr a'"
proof (cases "to_dict a")
  case (Inl e)
  then show ?thesis by (simp add: from_dict_of_to_dict_def)
next
  case (Inr d)
  then have "d (lit ''name'') = None" by (rule to_dict_no_name)
  with Inr show ?thesis by (simp add: from_dict_of_to_dict_def from_dict_def)
qed

lemma encode_utf8_ascii:
  "list_all (\<lambda>c. c < 128) t \<Longrightarrow> encode_utf8 t = Inr (map of_nat t)"
  by (induction t) (simp_all add: utf8_char_def)

lemma size_of_ascii_text:
  "content a = Text t \<Longrightarrow> list_all (\<lambda>c. c < 128) t \<Longrightarrow>
   \<exists>b. as_bytes a = Inr b \<and> size_of a = length b"
  by (simp add: as_bytes_def size_of_def encode_utf8_ascii)

text \<open>For a relative name the parts are the pieces between the separators, without
  the empty ones and the single dots; so a piece of two or more dots is a part.\<close>

lemma split_sep_no_sep: "sep \<notin> set s \<Longrightarrow> split_sep s = [s]"
  by (induction s) auto

lemma is_absolute_iff: "is_absolute name \<longleftrightarrow> (name \<noteq> [] \<and> hd name = sep)"
  by (cases name) (auto simp: is_absolute_def parse_parts_def splitroot_def Let_def)

lemma parts_relative:
  "\<not> is_absolute name \<Longrightarrow>
   parts name = filter (\<lambda>x. x \<noteq> [] \<and> x \<noteq> [dot]) (split_sep name)"
  by (cases name)
     (auto simp: is_absolute_iff parts_def parse_parts_def splitroot_def Let_def split_sep_no_sep
       sep_def dot_def)

lemma from_dict_dots_segment:
  assumes n: "data (lit ''name'') = Some (PyStr name)"
    and seg: "list_ex (\<lambda>seg. set seg = {dot} \<and> seg \<noteq> [dot]) (split_sep name)"
  shows "from_dict data = Inl IllegalPathError"
proof (cases "is_absolute name")
  case True
  then show ?thesis using n by (simp add: from_dict_def)
next
  case False
  from seg obtain s where s: "s \<in> set (split_sep name)" "set s = {dot}" "s \<noteq> [dot]"
    by (auto simp: list_ex_iff)
  then have "s \<noteq> []" by auto
  with s have "s \<in> set (parts name)"
    by (simp add: parts_relative [OF False])
  with s(2) have ex: "list_ex (\<lambda>part. set part = {dot}) (parts name)"
    by (auto simp: list_ex_iff)
  then have "parts name \<noteq> []" by auto
  moreover have "\<not> accepted_name name"
    using ex by (simp add: accepted_name_def)
  ultimately show ?thesis
    using n by (rule from_dict_rejected [rotated])
qed

text \<open>pathlib drops a single-dot component before \<^verbatim>\<open>from_dict\<close> looks at the
  parts, so such a name is accepted, and the attachment keeps the name as given.\<close>

lemma from_dict_single_dot_component:
  "from_dict [lit ''name'' \<mapsto> PyStr (lit ''./x'')] = Inr \<lparr>path = lit ''./x'', content = Bytes []\<rparr>"
  "from_dict [lit ''name'' \<mapsto> PyStr (lit ''a/./b'')]
     = Inr \<lparr>path = lit ''a/./b'', content = Bytes []\<rparr>"
  by (simp_all add: from_dict_def path_eval b64_eval)

text \<open>A backslash in the first part is rejected, although the path is relative on
  POSIX.\<close>

lemma from_dict_backslash_first_part:
  "from_dict [lit ''name'' \<mapsto> PyStr (lit ''a'' @ [backslash] @ lit ''b/c'')] = Inl IllegalPathError"
  by (simp add: from_dict_def path_eval)

section \<open>Facts about the lifecycle\<close>

subsection \<open>The acquisition loop\<close>

lemma drawn_Suc:
  "drawn env w (Suc i) =
     Uuid4 (uuid4 env (uuid_calls w))
     # drawn env (emit (Uuid4 (uuid4 env (uuid_calls w))) (w\<lparr>uuid_calls := Suc (uuid_calls w)\<rparr>)) i"
  by (simp add: drawn_def emit_def upt_rec [of 0] map_Suc_upt [symmetric] del: upt_Suc)

lemma enter_loop_skip:
  "(\<forall>j<i. uuid4 env (uuid_calls w + j) \<in> assigned_names w) \<Longrightarrow>
   enter_loop opts env (i + k) self w =
     enter_loop opts env k self
       (w\<lparr>uuid_calls := uuid_calls w + i, events := events w @ drawn env w i\<rparr>)"
proof (induction i arbitrary: w)
  case 0
  then show ?case by (simp add: drawn_def)
next
  case (Suc i)
  let ?name = "uuid4 env (uuid_calls w)"
  let ?w0 = "emit (Uuid4 ?name) (w\<lparr>uuid_calls := Suc (uuid_calls w)\<rparr>)"
  have first: "?name \<in> assigned_names w"
    using Suc.prems by (metis add.right_neutral zero_less_Suc)
  have rest: "\<forall>j<i. uuid4 env (uuid_calls ?w0 + j) \<in> assigned_names ?w0"
    using Suc.prems by (auto simp: emit_def)
  have "enter_loop opts env (Suc i + k) self w = enter_loop opts env (i + k) self ?w0"
    using first by (simp add: emit_def Let_def)
  also have "\<dots> = enter_loop opts env k self
       (?w0\<lparr>uuid_calls := uuid_calls ?w0 + i, events := events ?w0 @ drawn env ?w0 i\<rparr>)"
    using rest by (rule Suc.IH)
  also have "?w0\<lparr>uuid_calls := uuid_calls ?w0 + i, events := events ?w0 @ drawn env ?w0 i\<rparr>
      = w\<lparr>uuid_calls := uuid_calls w + Suc i, events := events w @ drawn env w (Suc i)\<rparr>"
    by (simp add: drawn_Suc) (simp add: emit_def)
  finally show ?case .
qed

lemma enter_loop_free:
  assumes "uuid4 env (uuid_calls w) = n" "n \<notin> assigned_names w" "fs w n = None" "mount_ok env n"
  shows "enter_loop opts env (Suc k) self w =
     (None, self\<lparr>mpath := Some n\<rparr>,
      w\<lparr>fs := (fs w)(n \<mapsto> provisioned),
        assigned_names := insert n (assigned_names w),
        uuid_calls := Suc (uuid_calls w),
        events := events w @ Uuid4 n # provision_events opts n\<rparr>)"
  using assms
  by (simp add: mount_tmpfs_def chmod_def mkdir_home_def chmod_home_def emit_def path_exists_def
      is_dir_def provisioned_def provision_events_def Let_def)

text \<open>When a directory without \<^verbatim>\<open>home\<close> is already at the path of a free name,
  \<^verbatim>\<open>mount_tmpfs\<close> returns the path without creating or mounting anything, and the
  rest of the provisioning is as for a fresh name.\<close>

lemma enter_loop_free_existing_dir:
  assumes "uuid4 env (uuid_calls w) = n" "n \<notin> assigned_names w"
    "fs w n = Some (IsDir d)" "home d = None"
  shows "enter_loop opts env (Suc k) self w =
     (None, self\<lparr>mpath := Some n\<rparr>,
      w\<lparr>fs := (fs w)(n \<mapsto> IsDir (d\<lparr>mode := octal 5 5 5,
                                      home := Some (HomeDir (octal 7 7 7) [])\<rparr>)),
        assigned_names := insert n (assigned_names w),
        uuid_calls := Suc (uuid_calls w),
        events := events w @ [Uuid4 n, Chmod n (octal 5 5 5), MkdirHome n,
                              ChmodHome n (octal 7 7 7), PoolAdd n]\<rparr>)"
  using assms
  by (simp add: mount_tmpfs_def chmod_def mkdir_home_def chmod_home_def emit_def path_exists_def
      is_dir_def Let_def)

lemma chmod_frame:
  "assigned_names (snd (chmod p m w)) = assigned_names w"
  "uuid_calls (snd (chmod p m w)) = uuid_calls w"
  by (auto simp: chmod_def emit_def split: option.splits fs_entry.splits)

lemma mkdir_home_frame:
  "assigned_names (snd (mkdir_home p w)) = assigned_names w"
  "uuid_calls (snd (mkdir_home p w)) = uuid_calls w"
  by (auto simp: mkdir_home_def emit_def split: option.splits fs_entry.splits)

lemma chmod_home_frame:
  "assigned_names (snd (chmod_home p m w)) = assigned_names w"
  "uuid_calls (snd (chmod_home p m w)) = uuid_calls w"
  by (auto simp: chmod_home_def emit_def split: option.splits fs_entry.splits home.splits)

lemma mount_tmpfs_frame:
  "assigned_names (snd (mount_tmpfs opts env name w)) = assigned_names w"
  "uuid_calls (snd (mount_tmpfs opts env name w)) = uuid_calls w"
  by (auto simp: mount_tmpfs_def emit_def Let_def chmod_frame split: option.splits)

lemma mount_tmpfs_path: "mount_tmpfs opts env name w = (Inr p, w') \<Longrightarrow> p = name"
  by (auto simp: mount_tmpfs_def Let_def split: option.splits if_splits)

lemma enter_loop_result:
  "enter_loop opts env k self w = (r, self', w') \<Longrightarrow>
   uuid_calls w' \<le> uuid_calls w + k
   \<and> (case r of
        None \<Rightarrow> \<exists>m. mpath self' = Some m \<and> m \<notin> assigned_names w
                    \<and> assigned_names w' = insert m (assigned_names w)
      | Some e \<Rightarrow> assigned_names w' = assigned_names w)"
proof (induction k arbitrary: w)
  case 0
  then show ?case by auto
next
  case (Suc k)
  let ?name = "uuid4 env (uuid_calls w)"
  let ?w0 = "emit (Uuid4 ?name) (w\<lparr>uuid_calls := Suc (uuid_calls w)\<rparr>)"
  have w0: "assigned_names ?w0 = assigned_names w" "uuid_calls ?w0 = Suc (uuid_calls w)"
    by (simp_all add: emit_def)
  show ?case
  proof (cases "?name \<in> assigned_names w")
    case True
    then have "enter_loop opts env k self ?w0 = (r, self', w')"
      using Suc.prems by (simp add: emit_def Let_def)
    from Suc.IH [OF this] show ?thesis
      by (auto simp: w0 split: option.splits)
  next
    case False
    obtain m1 w1 where m: "mount_tmpfs opts env ?name ?w0 = (m1, w1)" by force
    have f1: "assigned_names w1 = assigned_names w" "uuid_calls w1 = Suc (uuid_calls w)"
      using mount_tmpfs_frame [of opts env ?name ?w0] m by (simp_all add: w0)
    obtain c2 w2 where c: "chmod ?name (octal 5 5 5) w1 = (c2, w2)" by force
    have f2: "assigned_names w2 = assigned_names w" "uuid_calls w2 = Suc (uuid_calls w)"
      using chmod_frame [of ?name "octal 5 5 5" w1] c by (simp_all add: f1)
    obtain c3 w3 where h: "mkdir_home ?name w2 = (c3, w3)" by force
    have f3: "assigned_names w3 = assigned_names w" "uuid_calls w3 = Suc (uuid_calls w)"
      using mkdir_home_frame [of ?name w2] h by (simp_all add: f2)
    obtain c4 w4 where g: "chmod_home ?name (octal 7 7 7) w3 = (c4, w4)" by force
    have f4: "assigned_names w4 = assigned_names w" "uuid_calls w4 = Suc (uuid_calls w)"
      using chmod_home_frame [of ?name "octal 7 7 7" w3] g by (simp_all add: f3)
    show ?thesis
    proof (cases m1)
      case (Inl e)
      then show ?thesis
        using Suc.prems False m f1 by (auto simp: Let_def w0)
    next
      case (Inr p)
      then have p: "p = ?name" using m mount_tmpfs_path by blast
      show ?thesis
        using Suc.prems False m Inr p c h g f1 f2 f3 f4
        by (cases c2; cases c3; cases c4) (auto simp: Let_def w0 emit_def)
    qed
  qed
qed

lemma enter_result:
  "enter opts env self w = (r, self', w') \<Longrightarrow>
   uuid_calls w' \<le> uuid_calls w + 10
   \<and> (case r of
        None \<Rightarrow> \<exists>m. mpath self' = Some m \<and> m \<notin> assigned_names w
                    \<and> assigned_names w' = insert m (assigned_names w)
      | Some e \<Rightarrow> assigned_names w' = assigned_names w)"
proof -
  assume a: "enter opts env self w = (r, self', w')"
  obtain w1 where l: "enter_loop opts env 10 self (emit Acquire w) = (r, self', w1)"
    and w': "w' = emit Release w1"
    using a by (auto simp: enter_def split: prod.splits)
  from enter_loop_result [OF l] show ?thesis
    by (auto simp: w' emit_def split: option.splits)
qed

lemma enter_first_free:
  assumes i: "i < 10"
    and taken: "\<forall>j<i. uuid4 env (uuid_calls w + j) \<in> assigned_names w"
    and n: "uuid4 env (uuid_calls w + i) = n"
    and free: "n \<notin> assigned_names w" and fresh: "fs w n = None" and ok: "mount_ok env n"
  shows "enter opts env self w =
          (None, self\<lparr>mpath := Some n\<rparr>,
           w\<lparr>fs := (fs w)(n \<mapsto> provisioned),
             assigned_names := insert n (assigned_names w),
             uuid_calls := uuid_calls w + Suc i,
             events := events w @ Acquire # drawn env w (Suc i) @ provision_events opts n
                         @ [Release]\<rparr>)"
proof -
  define w0 where "w0 = emit Acquire w"
  define w1 where "w1 = w0\<lparr>uuid_calls := uuid_calls w0 + i, events := events w0 @ drawn env w0 i\<rparr>"
  define k where "k = 9 - i"
  have k: "10 = i + Suc k" using i by (simp add: k_def)
  have w0: "uuid_calls w0 = uuid_calls w" "assigned_names w0 = assigned_names w"
    "fs w0 = fs w" "events w0 = events w @ [Acquire]"
    by (simp_all add: w0_def emit_def)
  have w1: "uuid_calls w1 = uuid_calls w + i" "assigned_names w1 = assigned_names w"
    "fs w1 = fs w" "events w1 = events w @ Acquire # drawn env w i"
    by (simp_all add: w1_def w0 drawn_def)
  have "\<forall>j<i. uuid4 env (uuid_calls w0 + j) \<in> assigned_names w0"
    using taken by (simp only: w0)
  then have skip: "enter_loop opts env (i + Suc k) self w0 = enter_loop opts env (Suc k) self w1"
    unfolding w1_def by (rule enter_loop_skip)
  have "enter_loop opts env (Suc k) self w1 =
     (None, self\<lparr>mpath := Some n\<rparr>,
      w1\<lparr>fs := (fs w1)(n \<mapsto> provisioned),
        assigned_names := insert n (assigned_names w1),
        uuid_calls := Suc (uuid_calls w1),
        events := events w1 @ Uuid4 n # provision_events opts n\<rparr>)"
  proof (rule enter_loop_free)
    show "uuid4 env (uuid_calls w1) = n" using n by (simp only: w1)
    show "n \<notin> assigned_names w1" using free by (simp add: w1)
    show "fs w1 n = None" using fresh by (simp only: w1)
    show "mount_ok env n" by (rule ok)
  qed
  with skip have loop: "enter_loop opts env 10 self w0 =
     (None, self\<lparr>mpath := Some n\<rparr>,
      w1\<lparr>fs := (fs w1)(n \<mapsto> provisioned),
        assigned_names := insert n (assigned_names w1),
        uuid_calls := Suc (uuid_calls w1),
        events := events w1 @ Uuid4 n # provision_events opts n\<rparr>)"
    by (simp only: k)
  have d: "drawn env w (Suc i) = drawn env w i @ [Uuid4 n]"
    using n by (simp add: drawn_def)
  have final: "emit Release
      (w1\<lparr>fs := (fs w1)(n \<mapsto> provisioned),
        assigned_names := insert n (assigned_names w1),
        uuid_calls := Suc (uuid_calls w1),
        events := events w1 @ Uuid4 n # provision_events opts n\<rparr>)
     = w\<lparr>fs := (fs w)(n \<mapsto> provisioned),
             assigned_names := insert n (assigned_names w),
             uuid_calls := uuid_calls w + Suc i,
             events := events w @ Acquire # drawn env w (Suc i) @ provision_events opts n
                         @ [Release]\<rparr>"
    by (simp add: emit_def w1 d)
  show ?thesis
    unfolding enter_def w0_def [symmetric] loop by (simp add: final)
qed

lemma enter_exhausted:
  "(\<forall>j<10. uuid4 env (uuid_calls w + j) \<in> assigned_names w)
    \<Longrightarrow> enter opts env self w =
          (Some RuntimeError, self,
           w\<lparr>uuid_calls := uuid_calls w + 10,
             events := events w @ Acquire # drawn env w 10 @ [Release]\<rparr>)"
proof -
  assume a: "\<forall>j<10. uuid4 env (uuid_calls w + j) \<in> assigned_names w"
  let ?w0 = "emit Acquire w"
  have "enter_loop opts env (10 + 0) self ?w0 =
        enter_loop opts env 0 self
          (?w0\<lparr>uuid_calls := uuid_calls ?w0 + 10, events := events ?w0 @ drawn env ?w0 10\<rparr>)"
    using a by (intro enter_loop_skip) (simp add: emit_def)
  then show "enter opts env self w =
          (Some RuntimeError, self,
           w\<lparr>uuid_calls := uuid_calls w + 10,
             events := events w @ Acquire # drawn env w 10 @ [Release]\<rparr>)"
    unfolding enter_def by (simp add: emit_def drawn_def)
qed

subsection \<open>Release, write elevation and output enumeration\<close>

lemma unmount_tmpfs_frame:
  "assigned_names (snd (unmount_tmpfs env n w)) = assigned_names w"
  by (simp add: unmount_tmpfs_def emit_def Let_def)

lemma unmount_tmpfs_ok:
  "(is_dir w n \<longrightarrow> umount_ok env n) \<Longrightarrow> fst (unmount_tmpfs env n w) = None"
  by (simp add: unmount_tmpfs_def Let_def)

lemma cleanup_released: "mpath self = None \<Longrightarrow> cleanup env self w = (None, self, w)"
  by (simp add: cleanup_def)

lemma cleanup_acquired:
  assumes p: "mpath self = Some n" and pool: "n \<in> assigned_names w"
    and um: "is_dir w n \<longrightarrow> umount_ok env n"
  shows "\<exists>w'. cleanup env self w = (None, self\<lparr>mpath := None\<rparr>, w')
          \<and> fs w' = fs (snd (unmount_tmpfs env n w))
          \<and> assigned_names w' =
               (if path_exists w' n then assigned_names w else assigned_names w - {n})
          \<and> events w' =
               events (snd (unmount_tmpfs env n w))
               @ (if path_exists w' n then [Warning n] else [Acquire, PoolRemove n, Release])"
proof -
  obtain w1 where u: "unmount_tmpfs env n w = (None, w1)"
    using unmount_tmpfs_ok [OF um] by (cases "unmount_tmpfs env n w") auto
  have a1: "assigned_names w1 = assigned_names w"
    using unmount_tmpfs_frame [of env n w] u by simp
  show ?thesis
    using p pool u a1
    by (cases "path_exists w1 n") (simp_all add: cleanup_def emit_def path_exists_def)
qed

lemma allow_write_body_raises:
  "mpath self = Some p \<Longrightarrow> chmod p (octal 7 7 7) w = (None, w1) \<Longrightarrow> body w1 = (Some e, w2) \<Longrightarrow>
   allow_write self body w = (Some e, w2)"
  by (simp add: allow_write_def)

lemma allow_write_body_returns:
  "mpath self = Some p \<Longrightarrow> chmod p (octal 7 7 7) w = (None, w1) \<Longrightarrow> body w1 = (None, w2) \<Longrightarrow>
   allow_write self body w = chmod p (octal 5 5 5) w2"
  by (simp add: allow_write_def)

lemma from_path_call_two: "from_path_call [x, y] = Inl TypeError"
  by (simp add: from_path_call_def split: pyarg.splits)

lemma attachments_loop_nothing: "fst (attachments_loop opts files) = []"
  by (induction files) (simp_all add: from_path_call_two)

lemma attachments_loop_raises:
  "list_ex (\<lambda>file. is_file (snd file)) files \<Longrightarrow>
   snd (attachments_loop opts files) = Some TypeError"
  by (induction files) (auto simp: from_path_call_two)

lemma attachments_nothing: "fst (attachments opts self w) = []"
  by (simp add: attachments_def attachments_loop_nothing split: option.splits)

subsection \<open>The concrete environment and worlds\<close>

lemma os_example_simps:
  "uuid4 (os_example left) i = lit ''uuid-'' @ [48 + i]"
  "mount_ok (os_example left) n" "umount_ok (os_example left) n"
  "rmtree_left (os_example left) = left"
  by (simp_all add: os_example_def)

lemma world_of_simps:
  "assigned_names (world_of names) = set names" "uuid_calls (world_of names) = 0"
  "events (world_of names) = []"
  "fs (world_of names) = map_of (map (\<lambda>n. (n, provisioned)) names)"
  by (simp_all add: world_of_def)

lemma all_less_two: "(\<forall>j<2. P j) = (P 0 \<and> P (Suc 0))" for P :: "nat \<Rightarrow> bool"
  by (auto simp: less_2_cases_iff)

section \<open>The claims about the attachment codec\<close>

text \<open>
  Claim C3 (the round-trip law, as the claim states it, fails): \<^verbatim>\<open>to_dict\<close> writes
  the keys \<^verbatim>\<open>path\<close>, \<^verbatim>\<open>size\<close> and \<^verbatim>\<open>content\<close>, and \<^verbatim>\<open>from_dict\<close> reads the key
  \<^verbatim>\<open>name\<close>; so for the attachment \<^verbatim>\<open>output.txt\<close> with the bytes \<^verbatim>\<open>42\<close>,
  \<^verbatim>\<open>from_dict(to_dict(a))\<close> raises \<^verbatim>\<open>KeyError\<close> and is not \<open>a\<close>.
\<close>

theorem from_dict_of_to_dict_counterexample:
  "from_dict_of_to_dict \<lparr>path = lit ''output.txt'', content = Bytes (blit ''42'')\<rparr> = Inl KeyError
   \<and> from_dict_of_to_dict \<lparr>path = lit ''output.txt'', content = Bytes (blit ''42'')\<rparr>
       \<noteq> Inr \<lparr>path = lit ''output.txt'', content = Bytes (blit ''42'')\<rparr>"
proof -
  let ?a = "\<lparr>path = lit ''output.txt'', content = Bytes (blit ''42'')\<rparr>"
  obtain d where d: "to_dict ?a = Inr d"
    using to_dict_bytes [of ?a "blit ''42''"] by simp
  then have "d (lit ''name'') = None" by (rule to_dict_no_name)
  then have "from_dict d = Inl KeyError" by (simp add: from_dict_def)
  with d show ?thesis by (simp add: from_dict_of_to_dict_def)
qed

text \<open>
  Claim C3, amended: for every attachment \<open>a\<close> with binary content whose path passes
  the path checks of \<^verbatim>\<open>from_dict\<close>, \<^verbatim>\<open>to_dict(a)\<close> is the dictionary with exactly
  the keys \<^verbatim>\<open>path\<close> (the path of \<open>a\<close>), \<^verbatim>\<open>size\<close> (the number of bytes) and
  \<^verbatim>\<open>content\<close> (the base64 text of the bytes); it has no key \<^verbatim>\<open>name\<close>, so
  \<^verbatim>\<open>from_dict(to_dict(a))\<close> raises \<^verbatim>\<open>KeyError\<close>; once the path is also entered
  under \<^verbatim>\<open>name\<close>, \<^verbatim>\<open>from_dict\<close> returns an attachment equal to \<open>a\<close>.
\<close>

theorem from_dict_of_rekeyed_to_dict:
  assumes "content a = Bytes b" and "accepted_name (path a)"
  shows "\<exists>d. to_dict a = Inr d
           \<and> d = [lit ''path'' \<mapsto> PyStr (path a), lit ''size'' \<mapsto> PyInt (int (length b)),
                    lit ''content'' \<mapsto> PyStr (map unat (b64encode b))]
           \<and> dom d = {lit ''path'', lit ''size'', lit ''content''}
           \<and> d (lit ''name'') = None
           \<and> from_dict d = Inl KeyError
           \<and> from_dict_of_to_dict a = Inl KeyError
           \<and> from_dict (d(lit ''name'' \<mapsto> PyStr (path a))) = Inr a"
proof -
  let ?d = "[lit ''path'' \<mapsto> PyStr (path a), lit ''size'' \<mapsto> PyInt (int (length b)),
             lit ''content'' \<mapsto> PyStr (map unat (b64encode b))]"
  have d: "to_dict a = Inr ?d" using assms(1) by (rule to_dict_bytes)
  have keys: "dom ?d = {lit ''path'', lit ''size'', lit ''content''}" by auto
  have n: "?d (lit ''name'') = None" by (simp add: lit_keys_distinct)
  have k: "from_dict ?d = Inl KeyError" using n by (simp add: from_dict_def)
  have c: "from_dict_of_to_dict a = Inl KeyError"
    using d k by (simp add: from_dict_of_to_dict_def)
  have "from_dict (?d(lit ''name'' \<mapsto> PyStr (path a)))
          = Inr \<lparr>path = path a, content = Bytes b\<rparr>"
    using assms(2)
    by (subst from_dict_accepted [where name = "path a"])
       (simp_all add: lit_keys_distinct lit_keys_distinct [symmetric] b64decode_b64encode)
  moreover have "\<lparr>path = path a, content = Bytes b\<rparr> = a" using assms(1) by simp
  ultimately have r: "from_dict (?d(lit ''name'' \<mapsto> PyStr (path a))) = Inr a" by simp
  show ?thesis
    using d keys n k c r by (intro exI [of _ ?d] conjI refl)
qed

theorem from_dict_of_rekeyed_to_dict_witness:
  "accepted_name (lit ''output.txt'')
   \<and> (\<exists>d. to_dict \<lparr>path = lit ''output.txt'', content = Bytes (blit ''42'')\<rparr> = Inr d
          \<and> d = [lit ''path'' \<mapsto> PyStr (lit ''output.txt''), lit ''size'' \<mapsto> PyInt 2,
                   lit ''content'' \<mapsto> PyStr (lit ''NDI='')]
          \<and> dom d = {lit ''path'', lit ''size'', lit ''content''}
          \<and> d (lit ''name'') = None \<and> from_dict d = Inl KeyError
          \<and> from_dict (d(lit ''name'' \<mapsto> PyStr (lit ''output.txt'')))
              = Inr \<lparr>path = lit ''output.txt'', content = Bytes (blit ''42'')\<rparr>)"
proof -
  have acc: "accepted_name (lit ''output.txt'')"
    by (simp add: accepted_name_def path_eval)
  have enc: "map unat (b64encode (blit ''42'')) = lit ''NDI=''"
    by (simp add: b64encode_def blit_def lit_def unat_table_b2a alphabet_code_def BASE64_PAD_def)
  have len: "int (length (blit ''42'')) = 2"
    by (simp add: blit_def)
  show ?thesis
    using acc
      from_dict_of_rekeyed_to_dict
        [of "\<lparr>path = lit ''output.txt'', content = Bytes (blit ''42'')\<rparr>" "blit ''42''"]
    by (simp add: enc len)
qed

text \<open>
  Claim C4 (as stated, it fails): the name \<^verbatim>\<open>a/./b\<close> has a segment that consists
  solely of a dot, and \<^verbatim>\<open>from_dict\<close> accepts it, keeping the name as given: pathlib
  has dropped the single dot from the parts before the check looks at them. The name
  \<^verbatim>\<open>.\<close> has no parts at all and raises \<^verbatim>\<open>IndexError\<close>, not
  \<^verbatim>\<open>IllegalPathError\<close>.
\<close>

theorem from_dict_single_dot_counterexample:
  "list_ex (\<lambda>seg. set seg = {dot}) (split_sep (lit ''a/./b''))
   \<and> from_dict [lit ''name'' \<mapsto> PyStr (lit ''a/./b'')]
       = Inr \<lparr>path = lit ''a/./b'', content = Bytes []\<rparr>
   \<and> list_ex (\<lambda>seg. set seg = {dot}) (split_sep (lit ''.''))
   \<and> from_dict [lit ''name'' \<mapsto> PyStr (lit ''.'')] = Inl IndexError"
  by (simp add: from_dict_def path_eval b64_eval)

text \<open>
  Claim C4, amended: \<^verbatim>\<open>from_dict\<close> raises \<^verbatim>\<open>IllegalPathError\<close> whenever the name is
  an absolute path, or the first part of its path holds a separator character, or some
  part of its path is made of dots only, where the parts are those of
  \<^verbatim>\<open>Path(name).parts\<close>, in which pathlib has already dropped empty and single-dot
  components; in terms of the name itself, whenever a segment between separators
  consists solely of two or more dots. So it does for \<^verbatim>\<open>/etc/passwd\<close>, \<^verbatim>\<open>../x\<close>
  and \<^verbatim>\<open>a/../../b\<close>. It accepts the name \<^verbatim>\<open>out/result.txt\<close> with the content
  \<^verbatim>\<open>aGVsbG8=\<close> and returns that path with the bytes \<^verbatim>\<open>hello\<close>. When the key
  \<^verbatim>\<open>content\<close> is absent and the name passes the checks, the content is the empty
  byte string.
\<close>

theorem from_dict_path_checks:
  "(data (lit ''name'') = Some (PyStr name)
      \<and> (is_absolute name
          \<or> (parts name \<noteq> [] \<and> set (hd (parts name)) \<inter> {backslash, sep} \<noteq> {})
          \<or> list_ex (\<lambda>part. set part = {dot}) (parts name))
    \<longrightarrow> from_dict data = Inl IllegalPathError)
   \<and> (data (lit ''name'') = Some (PyStr name)
      \<and> list_ex (\<lambda>seg. set seg = {dot} \<and> seg \<noteq> [dot]) (split_sep name)
    \<longrightarrow> from_dict data = Inl IllegalPathError)
   \<and> from_dict [lit ''name'' \<mapsto> PyStr (lit ''/etc/passwd'')] = Inl IllegalPathError
   \<and> from_dict [lit ''name'' \<mapsto> PyStr (lit ''../x'')] = Inl IllegalPathError
   \<and> from_dict [lit ''name'' \<mapsto> PyStr (lit ''a/../../b'')] = Inl IllegalPathError
   \<and> from_dict [lit ''name'' \<mapsto> PyStr (lit ''out/result.txt''),
                 lit ''content'' \<mapsto> PyStr (lit ''aGVsbG8='')]
       = Inr \<lparr>path = lit ''out/result.txt'', content = Bytes (blit ''hello'')\<rparr>
   \<and> (data (lit ''name'') = Some (PyStr name) \<and> accepted_name name
        \<and> data (lit ''content'') = None
      \<longrightarrow> from_dict data = Inr \<lparr>path = name, content = Bytes []\<rparr>)"
proof -
  have general:
    "from_dict data = Inl IllegalPathError"
    if n: "data (lit ''name'') = Some (PyStr name)"
      and bad: "is_absolute name
          \<or> (parts name \<noteq> [] \<and> set (hd (parts name)) \<inter> {backslash, sep} \<noteq> {})
          \<or> list_ex (\<lambda>part. set part = {dot}) (parts name)"
  proof -
    have "parts name \<noteq> []"
      using bad is_absolute_parts [of name] by auto
    moreover have "\<not> accepted_name name"
      using bad by (auto simp: accepted_name_def)
    ultimately show ?thesis
      using n by (rule from_dict_rejected [rotated])
  qed
  have e1: "from_dict [lit ''name'' \<mapsto> PyStr (lit ''/etc/passwd'')] = Inl IllegalPathError"
    by (simp add: from_dict_def path_eval)
  have e2: "from_dict [lit ''name'' \<mapsto> PyStr (lit ''../x'')] = Inl IllegalPathError"
    by (simp add: from_dict_def path_eval)
  have e3: "from_dict [lit ''name'' \<mapsto> PyStr (lit ''a/../../b'')] = Inl IllegalPathError"
    by (simp add: from_dict_def path_eval)
  have e4: "from_dict [lit ''name'' \<mapsto> PyStr (lit ''out/result.txt''),
                       lit ''content'' \<mapsto> PyStr (lit ''aGVsbG8='')]
       = Inr \<lparr>path = lit ''out/result.txt'', content = Bytes (blit ''hello'')\<rparr>"
    by (simp add: from_dict_def path_eval b64_eval)
  have dflt: "from_dict data = Inr \<lparr>path = name, content = Bytes []\<rparr>"
    if "data (lit ''name'') = Some (PyStr name)" "accepted_name name"
       "data (lit ''content'') = None"
    using that by (simp add: from_dict_accepted b64decode_empty)
  have segment: "from_dict data = Inl IllegalPathError"
    if "data (lit ''name'') = Some (PyStr name)"
       "list_ex (\<lambda>seg. set seg = {dot} \<and> seg \<noteq> [dot]) (split_sep name)"
    using that by (rule from_dict_dots_segment)
  show ?thesis
    using general segment e1 e2 e3 e4 dflt by blast
qed

theorem from_dict_path_checks_witness:
  "list_ex (\<lambda>part. set part = {dot}) (parts (lit ''x/.../y''))
   \<and> list_ex (\<lambda>seg. set seg = {dot} \<and> seg \<noteq> [dot]) (split_sep (lit ''x/.../y''))
   \<and> from_dict [lit ''name'' \<mapsto> PyStr (lit ''x/.../y'')] = Inl IllegalPathError
   \<and> accepted_name (lit ''input.py'')
   \<and> from_dict [lit ''name'' \<mapsto> PyStr (lit ''input.py'')]
       = Inr \<lparr>path = lit ''input.py'', content = Bytes []\<rparr>"
proof -
  have dots: "list_ex (\<lambda>part. set part = {dot}) (parts (lit ''x/.../y''))"
    by (simp add: path_eval)
  have seg: "list_ex (\<lambda>seg. set seg = {dot} \<and> seg \<noteq> [dot]) (split_sep (lit ''x/.../y''))"
    by (simp add: path_eval)
  have acc: "accepted_name (lit ''input.py'')"
    by (simp add: accepted_name_def path_eval)
  have no_content: "[lit ''name'' \<mapsto> PyStr (lit ''input.py'')] (lit ''content'') = None"
    by (simp add: lit_keys_distinct [symmetric])
  show ?thesis
    using dots seg acc no_content
      from_dict_path_checks [of "[lit ''name'' \<mapsto> PyStr (lit ''x/.../y'')]" "lit ''x/.../y''"]
      from_dict_path_checks [of "[lit ''name'' \<mapsto> PyStr (lit ''input.py'')]" "lit ''input.py''"]
    by simp
qed

text \<open>
  Claim C5 (the code does not do what the claim says): for the dictionary with the
  name \<^verbatim>\<open>a.txt\<close> and the content \<^verbatim>\<open>abc\<close>, which ends inside a group of four
  characters, \<^verbatim>\<open>from_dict\<close> lets the \<^verbatim>\<open>binascii.Error\<close> of \<^verbatim>\<open>b64decode\<close>
  through, which is not an \<^verbatim>\<open>AttachmentError\<close>; for the content \<^verbatim>\<open>!!!!\<close>, which
  has no character of the alphabet, it returns an attachment with no bytes; and for
  no dictionary at all does it raise \<^verbatim>\<open>ParsingError\<close>.
\<close>

theorem from_dict_malformed_base64:
  "from_dict [lit ''name'' \<mapsto> PyStr (lit ''a.txt''), lit ''content'' \<mapsto> PyStr (lit ''abc'')]
     = Inl BinasciiError
   \<and> \<not> is_AttachmentError BinasciiError
   \<and> from_dict [lit ''name'' \<mapsto> PyStr (lit ''a.txt''), lit ''content'' \<mapsto> PyStr (lit ''!!!!'')]
       = Inr \<lparr>path = lit ''a.txt'', content = Bytes []\<rparr>
   \<and> (\<forall>data. from_dict data \<noteq> Inl ParsingError)"
proof -
  have e1: "from_dict [lit ''name'' \<mapsto> PyStr (lit ''a.txt''),
                       lit ''content'' \<mapsto> PyStr (lit ''abc'')] = Inl BinasciiError"
    by (simp add: from_dict_def path_eval b64_eval)
  have e2: "from_dict [lit ''name'' \<mapsto> PyStr (lit ''a.txt''),
                       lit ''content'' \<mapsto> PyStr (lit ''!!!!'')]
              = Inr \<lparr>path = lit ''a.txt'', content = Bytes []\<rparr>"
    by (simp add: from_dict_def path_eval b64_eval)
  have never: "from_dict data \<noteq> Inl ParsingError" for data
    using from_dict_error [of data ParsingError] by auto
  show ?thesis
    using e1 e2 never by simp
qed

text \<open>
  Claim C6 (the code does not do what the claim says for text): the attachment whose
  content is the one-character text U+00E9 has \<^verbatim>\<open>size\<close> 1, and its binary form has
  the two bytes C3 A9. For binary content \<^verbatim>\<open>size\<close> is the length of the binary
  form.
\<close>

theorem size_of_text_counts_code_points:
  "size_of \<lparr>path = lit ''a.txt'', content = Text [233]\<rparr> = 1
   \<and> as_bytes \<lparr>path = lit ''a.txt'', content = Text [233]\<rparr> = Inr [0xC3, 0xA9]
   \<and> (\<forall>p b. as_bytes \<lparr>path = p, content = Bytes b\<rparr> = Inr b
            \<and> size_of \<lparr>path = p, content = Bytes b\<rparr> = length b)"
  by (simp add: size_of_def as_bytes_def utf8_char_def)

text \<open>
  Claim C9: without the key \<^verbatim>\<open>name\<close>, \<^verbatim>\<open>from_dict\<close> raises \<^verbatim>\<open>KeyError\<close>; with a
  name whose path has no parts, as the empty string has none, it raises
  \<^verbatim>\<open>IndexError\<close>; neither is an \<^verbatim>\<open>AttachmentError\<close>.
\<close>

theorem from_dict_name_precondition:
  "(data (lit ''name'') = None \<longrightarrow> from_dict data = Inl KeyError)
   \<and> (data (lit ''name'') = Some (PyStr name) \<and> parts name = []
        \<longrightarrow> from_dict data = Inl IndexError)
   \<and> parts [] = []
   \<and> \<not> is_AttachmentError KeyError \<and> \<not> is_AttachmentError IndexError"
proof -
  have "from_dict data = Inl IndexError"
    if "data (lit ''name'') = Some (PyStr name)" "parts name = []"
    using that is_absolute_parts [of name] by (auto simp: from_dict_def)
  moreover have "parts [] = []"
    by (simp add: parts_def parse_parts_def)
  ultimately show ?thesis
    by (simp add: from_dict_def)
qed

theorem from_dict_name_precondition_witness:
  "from_dict Map.empty = Inl KeyError
   \<and> parts (lit ''./'') = []
   \<and> from_dict [lit ''name'' \<mapsto> PyStr (lit ''./'')] = Inl IndexError
   \<and> from_dict [lit ''name'' \<mapsto> PyStr []] = Inl IndexError"
proof -
  have p: "parts (lit ''./'') = []"
    by (simp add: path_eval)
  show ?thesis
    using p
      from_dict_name_precondition [of Map.empty]
      from_dict_name_precondition [of "[lit ''name'' \<mapsto> PyStr (lit ''./'')]" "lit ''./''"]
      from_dict_name_precondition [of "[lit ''name'' \<mapsto> PyStr []]" "[]"]
    by simp
qed

section \<open>The claims about the temporary directory\<close>

text \<open>
  Claim C1 (the code does not do what the claim says on the failure path): in a world
  with the provisioned directory \<^verbatim>\<open>uuid-0\<close>, a body that raises inside
  \<^verbatim>\<open>allow_write\<close> leaves the root with the mode \<^verbatim>\<open>0o777\<close> that the entry set: the
  only event is the first \<^verbatim>\<open>chmod\<close>. A body that returns normally is followed by
  the second \<^verbatim>\<open>chmod\<close>, and the root has the mode \<^verbatim>\<open>0o555\<close> again.
\<close>

theorem allow_write_failure_leaves_root_writable:
  "allow_write \<lparr>mpath = Some (lit ''uuid-0'')\<rparr> (\<lambda>w. (Some OSError, w)) (world_of [lit ''uuid-0''])
     = (Some OSError,
        (world_of [lit ''uuid-0''])
          \<lparr>fs := [lit ''uuid-0'' \<mapsto>
                    IsDir \<lparr>mode = octal 7 7 7, tmpfs = True,
                           home = Some (HomeDir (octal 7 7 7) [])\<rparr>],
            events := [Chmod (lit ''uuid-0'') (octal 7 7 7)]\<rparr>)
   \<and> allow_write \<lparr>mpath = Some (lit ''uuid-0'')\<rparr> (\<lambda>w. (None, w)) (world_of [lit ''uuid-0''])
     = (None,
        (world_of [lit ''uuid-0''])
          \<lparr>events := [Chmod (lit ''uuid-0'') (octal 7 7 7),
                       Chmod (lit ''uuid-0'') (octal 5 5 5)]\<rparr>)"
  by (simp add: allow_write_def chmod_def world_of_def provisioned_def emit_def)

text \<open>
  Claim C2 (the code does not do what the claim says): with a \<^verbatim>\<open>home\<close> that holds the
  regular file \<^verbatim>\<open>output.txt\<close> with the bytes \<^verbatim>\<open>42\<close>, the scan finds that file
  and \<^verbatim>\<open>from_path\<close> applied to it alone would give the attachment the claim
  describes, but \<^verbatim>\<open>attachments\<close> passes a second argument to \<^verbatim>\<open>from_path\<close> and
  raises \<^verbatim>\<open>TypeError\<close> before it yields anything; no directory makes it yield an
  attachment.
\<close>

theorem attachments_raises_TypeError:
  "glob_output (world_with_home (lit ''uuid-0'') [(lit ''output.txt'', RegularFile (blit ''42''))])
       (lit ''uuid-0'')
     = [(lit ''output.txt'', RegularFile (blit ''42''))]
   \<and> from_path (lit ''output.txt'', RegularFile (blit ''42''))
     = Inr \<lparr>path = lit ''output.txt'', content = Bytes (blit ''42'')\<rparr>
   \<and> attachments MemFSOptions_default \<lparr>mpath = Some (lit ''uuid-0'')\<rparr>
       (world_with_home (lit ''uuid-0'') [(lit ''output.txt'', RegularFile (blit ''42''))])
     = ([], Some TypeError)
   \<and> (\<forall>opts self w. fst (attachments opts self w) = [])"
proof -
  have g: "glob_output (world_with_home (lit ''uuid-0'') [(lit ''output.txt'', RegularFile (blit ''42''))])
       (lit ''uuid-0'') = [(lit ''output.txt'', RegularFile (blit ''42''))]"
    by (simp add: glob_output_def world_with_home_def lit_def)
  have f: "from_path (lit ''output.txt'', RegularFile (blit ''42''))
     = Inr \<lparr>path = lit ''output.txt'', content = Bytes (blit ''42'')\<rparr>"
    by (simp add: from_path_def)
  have a: "attachments MemFSOptions_default \<lparr>mpath = Some (lit ''uuid-0'')\<rparr>
       (world_with_home (lit ''uuid-0'') [(lit ''output.txt'', RegularFile (blit ''42''))])
     = ([], Some TypeError)"
    by (simp add: attachments_def g from_path_call_two)
  show ?thesis using g f a attachments_nothing by simp
qed

text \<open>
  Claim C7: \<^verbatim>\<open>__enter__\<close> takes the lock, draws names, and releases the lock. If the
  first \<open>i\<close> names drawn (\<open>i < 10\<close>) are in the pool and the next one, \<open>n\<close>, is not,
  with nothing at its path and a \<^verbatim>\<open>mount\<close> that succeeds, it draws exactly
  \<open>i + 1\<close> names and then, in this order, creates and mounts the directory, sets the
  root to \<^verbatim>\<open>0o555\<close>, creates \<^verbatim>\<open>home\<close> and sets it to \<^verbatim>\<open>0o777\<close>, adds \<open>n\<close> to the
  pool, and returns the object with its path set. If the ten names drawn are all in
  the pool it raises \<^verbatim>\<open>RuntimeError\<close>, and the filesystem and the pool are as
  before: the only events are the ten draws between taking and releasing the lock.
  In every case at most ten names are drawn.
\<close>

theorem enter_acquires:
  "(i < 10 \<and> (\<forall>j<i. uuid4 env (uuid_calls w + j) \<in> assigned_names w)
      \<and> uuid4 env (uuid_calls w + i) = n \<and> n \<notin> assigned_names w
      \<and> fs w n = None \<and> mount_ok env n
    \<longrightarrow> enter opts env self w =
          (None, self\<lparr>mpath := Some n\<rparr>,
           w\<lparr>fs := (fs w)(n \<mapsto> provisioned),
             assigned_names := insert n (assigned_names w),
             uuid_calls := uuid_calls w + Suc i,
             events := events w @ Acquire # drawn env w (Suc i) @ provision_events opts n
                         @ [Release]\<rparr>))
   \<and> ((\<forall>j<10. uuid4 env (uuid_calls w + j) \<in> assigned_names w)
    \<longrightarrow> enter opts env self w =
          (Some RuntimeError, self,
           w\<lparr>uuid_calls := uuid_calls w + 10,
             events := events w @ Acquire # drawn env w 10 @ [Release]\<rparr>))
   \<and> uuid_calls (snd (snd (enter opts env self w))) \<le> uuid_calls w + 10"
proof (intro conjI impI)
  assume "i < 10 \<and> (\<forall>j<i. uuid4 env (uuid_calls w + j) \<in> assigned_names w)
      \<and> uuid4 env (uuid_calls w + i) = n \<and> n \<notin> assigned_names w
      \<and> fs w n = None \<and> mount_ok env n"
  then show "enter opts env self w =
          (None, self\<lparr>mpath := Some n\<rparr>,
           w\<lparr>fs := (fs w)(n \<mapsto> provisioned),
             assigned_names := insert n (assigned_names w),
             uuid_calls := uuid_calls w + Suc i,
             events := events w @ Acquire # drawn env w (Suc i) @ provision_events opts n
                         @ [Release]\<rparr>)"
    by (intro enter_first_free) simp_all
next
  assume "\<forall>j<10. uuid4 env (uuid_calls w + j) \<in> assigned_names w"
  then show "enter opts env self w =
          (Some RuntimeError, self,
           w\<lparr>uuid_calls := uuid_calls w + 10,
             events := events w @ Acquire # drawn env w 10 @ [Release]\<rparr>)"
    by (rule enter_exhausted)
next
  obtain r self' w' where e: "enter opts env self w = (r, self', w')"
    by (cases "enter opts env self w") auto
  from enter_result [OF e]
  show "uuid_calls (snd (snd (enter opts env self w))) \<le> uuid_calls w + 10"
    by (simp add: e)
qed

theorem enter_acquires_witness:
  "enter MemFSOptions_default (os_example (\<lambda>_. None)) \<lparr>mpath = None\<rparr>
       (world_of [lit ''uuid-0'', lit ''uuid-1''])
     = (None, \<lparr>mpath = Some (lit ''uuid-2'')\<rparr>,
        \<lparr>fs = [lit ''uuid-0'' \<mapsto> provisioned, lit ''uuid-1'' \<mapsto> provisioned,
                lit ''uuid-2'' \<mapsto> provisioned],
          assigned_names = {lit ''uuid-0'', lit ''uuid-1'', lit ''uuid-2''},
          uuid_calls = 3,
          events = [Acquire, Uuid4 (lit ''uuid-0''), Uuid4 (lit ''uuid-1''), Uuid4 (lit ''uuid-2'')]
                     @ provision_events MemFSOptions_default (lit ''uuid-2'') @ [Release]\<rparr>)
   \<and> enter MemFSOptions_default (os_example (\<lambda>_. None)) \<lparr>mpath = None\<rparr>
       (world_of (map (\<lambda>i. lit ''uuid-'' @ [48 + i]) [0..<10]))
     = (Some RuntimeError, \<lparr>mpath = None\<rparr>,
        (world_of (map (\<lambda>i. lit ''uuid-'' @ [48 + i]) [0..<10]))
          \<lparr>uuid_calls := 10,
            events := Acquire # map (\<lambda>i. Uuid4 (lit ''uuid-'' @ [48 + i])) [0..<10] @ [Release]\<rparr>)"
proof -
  let ?env = "os_example (\<lambda>_. None)"
  let ?w = "world_of [lit ''uuid-0'', lit ''uuid-1'']"
  let ?full = "world_of (map (\<lambda>i. lit ''uuid-'' @ [48 + i]) [0..<10])"
  have taken: "\<forall>j<2. uuid4 ?env (uuid_calls ?w + j) \<in> assigned_names ?w"
    unfolding all_less_two by (simp add: os_example_simps world_of_simps lit_def)
  have n: "uuid4 ?env (uuid_calls ?w + 2) = lit ''uuid-2''"
    by (simp add: os_example_simps world_of_simps lit_def)
  have free: "lit ''uuid-2'' \<notin> assigned_names ?w"
    by (simp add: world_of_simps lit_def)
  have fresh: "fs ?w (lit ''uuid-2'') = None"
    by (simp add: world_of_simps lit_def)
  have ok: "mount_ok ?env (lit ''uuid-2'')"
    by (simp add: os_example_simps)
  have all: "\<forall>j<10. uuid4 ?env (uuid_calls ?full + j) \<in> assigned_names ?full"
    by (simp add: os_example_simps world_of_simps)
  have first: "enter MemFSOptions_default ?env \<lparr>mpath = None\<rparr> ?w =
          (None, \<lparr>mpath = None\<rparr>\<lparr>mpath := Some (lit ''uuid-2'')\<rparr>,
           ?w\<lparr>fs := (fs ?w)(lit ''uuid-2'' \<mapsto> provisioned),
             assigned_names := insert (lit ''uuid-2'') (assigned_names ?w),
             uuid_calls := uuid_calls ?w + Suc 2,
             events := events ?w @ Acquire # drawn ?env ?w (Suc 2)
                         @ provision_events MemFSOptions_default (lit ''uuid-2'') @ [Release]\<rparr>)"
  proof -
    have lt: "(2::nat) < 10" by simp
    have hyp: "(2::nat) < 10 \<and> (\<forall>j<2. uuid4 ?env (uuid_calls ?w + j) \<in> assigned_names ?w)
      \<and> uuid4 ?env (uuid_calls ?w + 2) = lit ''uuid-2'' \<and> lit ''uuid-2'' \<notin> assigned_names ?w
      \<and> fs ?w (lit ''uuid-2'') = None \<and> mount_ok ?env (lit ''uuid-2'')"
      using lt taken n free fresh ok by (intro conjI)
    from enter_acquires [where i = 2 and env = ?env and w = ?w and n = "lit ''uuid-2''"
        and opts = MemFSOptions_default and self = "\<lparr>mpath = None\<rparr>",
        THEN conjunct1, THEN mp, OF hyp]
    show ?thesis .
  qed
  have second: "enter MemFSOptions_default ?env \<lparr>mpath = None\<rparr> ?full =
          (Some RuntimeError, \<lparr>mpath = None\<rparr>,
           ?full\<lparr>uuid_calls := uuid_calls ?full + 10,
             events := events ?full @ Acquire # drawn ?env ?full 10 @ [Release]\<rparr>)"
    by (rule enter_acquires [where env = ?env and w = ?full
        and opts = MemFSOptions_default and self = "\<lparr>mpath = None\<rparr>",
        THEN conjunct2, THEN conjunct1, THEN mp, OF all])
  have d3: "drawn ?env ?w (Suc 2) = [Uuid4 (lit ''uuid-0''), Uuid4 (lit ''uuid-1''), Uuid4 (lit ''uuid-2'')]"
    by (simp add: drawn_def os_example_simps world_of_simps lit_def eval_nat_numeral)
  have d10: "drawn ?env ?full 10 = map (\<lambda>i. Uuid4 (lit ''uuid-'' @ [48 + i])) [0..<10]"
    by (simp add: drawn_def os_example_simps world_of_simps)
  have s1: "?w\<lparr>fs := (fs ?w)(lit ''uuid-2'' \<mapsto> provisioned),
             assigned_names := insert (lit ''uuid-2'') (assigned_names ?w),
             uuid_calls := uuid_calls ?w + Suc 2,
             events := events ?w @ Acquire # drawn ?env ?w (Suc 2)
                         @ provision_events MemFSOptions_default (lit ''uuid-2'') @ [Release]\<rparr>
     = \<lparr>fs = [lit ''uuid-0'' \<mapsto> provisioned, lit ''uuid-1'' \<mapsto> provisioned,
                lit ''uuid-2'' \<mapsto> provisioned],
          assigned_names = {lit ''uuid-0'', lit ''uuid-1'', lit ''uuid-2''},
          uuid_calls = 3,
          events = [Acquire, Uuid4 (lit ''uuid-0''), Uuid4 (lit ''uuid-1''), Uuid4 (lit ''uuid-2'')]
                     @ provision_events MemFSOptions_default (lit ''uuid-2'') @ [Release]\<rparr>"
    unfolding d3 by (auto simp: world_of_def)
  show ?thesis
    unfolding first second s1 d10 by (simp add: world_of_simps)
qed

text \<open>
  Claim C8: releasing a directory that is already released changes nothing. Releasing
  an acquired directory whose name is in the pool, when \<^verbatim>\<open>umount\<close> succeeds, raises
  nothing and clears \<^verbatim>\<open>self.path\<close>; afterwards the name is out of the pool exactly
  when the root path no longer exists: if the path is gone the name was removed
  between taking and releasing the lock, if it is still there the pool is unchanged
  and a warning was logged; a second release is then a no-op. And an acquisition that
  succeeds never returns a name that was in the pool, so a name left there is not
  selected again.
\<close>

theorem cleanup_releases_name:
  "(mpath self = None \<longrightarrow> cleanup env self w = (None, self, w))
   \<and> (mpath self = Some n \<and> n \<in> assigned_names w \<and> (is_dir w n \<longrightarrow> umount_ok env n)
      \<longrightarrow> (\<exists>self' w'. cleanup env self w = (None, self', w')
             \<and> mpath self' = None
             \<and> (n \<notin> assigned_names w' \<longleftrightarrow> \<not> path_exists w' n)
             \<and> assigned_names w' =
                 (if path_exists w' n then assigned_names w else assigned_names w - {n})
             \<and> events w' =
                 events (snd (unmount_tmpfs env n w))
                 @ (if path_exists w' n then [Warning n] else [Acquire, PoolRemove n, Release])
             \<and> cleanup env self' w' = (None, self', w')))
   \<and> (enter opts env_acq self_acq w_acq = (None, self_new, w_new)
      \<longrightarrow> (\<exists>m. mpath self_new = Some m \<and> m \<notin> assigned_names w_acq))"
proof (intro conjI impI)
  assume "mpath self = None"
  then show "cleanup env self w = (None, self, w)" by (rule cleanup_released)
next
  assume a: "mpath self = Some n \<and> n \<in> assigned_names w \<and> (is_dir w n \<longrightarrow> umount_ok env n)"
  then obtain w' where c: "cleanup env self w = (None, self\<lparr>mpath := None\<rparr>, w')"
    and pool: "assigned_names w' =
               (if path_exists w' n then assigned_names w else assigned_names w - {n})"
    and ev: "events w' =
               events (snd (unmount_tmpfs env n w))
               @ (if path_exists w' n then [Warning n] else [Acquire, PoolRemove n, Release])"
    using cleanup_acquired [of self n w env] by blast
  have again: "cleanup env (self\<lparr>mpath := None\<rparr>) w' = (None, self\<lparr>mpath := None\<rparr>, w')"
    by (rule cleanup_released) simp
  have iff: "n \<notin> assigned_names w' \<longleftrightarrow> \<not> path_exists w' n"
    using a pool by simp
  show "\<exists>self' w'. cleanup env self w = (None, self', w')
             \<and> mpath self' = None
             \<and> (n \<notin> assigned_names w' \<longleftrightarrow> \<not> path_exists w' n)
             \<and> assigned_names w' =
                 (if path_exists w' n then assigned_names w else assigned_names w - {n})
             \<and> events w' =
                 events (snd (unmount_tmpfs env n w))
                 @ (if path_exists w' n then [Warning n] else [Acquire, PoolRemove n, Release])
             \<and> cleanup env self' w' = (None, self', w')"
    using c pool ev again iff by (intro exI [of _ "self\<lparr>mpath := None\<rparr>"] exI [of _ w']) simp
next
  assume "enter opts env_acq self_acq w_acq = (None, self_new, w_new)"
  from enter_result [OF this]
  show "\<exists>m. mpath self_new = Some m \<and> m \<notin> assigned_names w_acq" by auto
qed

theorem cleanup_releases_name_witness:
  "cleanup (os_example (\<lambda>_. None)) \<lparr>mpath = None\<rparr> (world_of [lit ''uuid-0''])
     = (None, \<lparr>mpath = None\<rparr>, world_of [lit ''uuid-0''])
   \<and> lit ''uuid-0'' \<in> assigned_names (world_of [lit ''uuid-0''])
   \<and> (\<exists>self' w'.
         cleanup (os_example (\<lambda>_. None)) \<lparr>mpath = Some (lit ''uuid-0'')\<rparr>
           (world_of [lit ''uuid-0'']) = (None, self', w')
         \<and> mpath self' = None \<and> \<not> path_exists w' (lit ''uuid-0'')
         \<and> assigned_names w' = {}
         \<and> events w' = [Umount (lit ''uuid-0''), Rmtree (lit ''uuid-0''), Acquire,
                          PoolRemove (lit ''uuid-0''), Release]
         \<and> cleanup (os_example (\<lambda>_. None)) self' w' = (None, self', w'))
   \<and> (\<exists>self' w'.
         cleanup (os_example (\<lambda>_. Some (NotDir 0))) \<lparr>mpath = Some (lit ''uuid-0'')\<rparr>
           (world_of [lit ''uuid-0'']) = (None, self', w')
         \<and> mpath self' = None \<and> path_exists w' (lit ''uuid-0'')
         \<and> assigned_names w' = {lit ''uuid-0''}
         \<and> events w' = [Umount (lit ''uuid-0''), Rmtree (lit ''uuid-0''),
                          Warning (lit ''uuid-0'')]
         \<and> cleanup (os_example (\<lambda>_. Some (NotDir 0))) self' w' = (None, self', w'))
   \<and> (\<exists>m. mpath (fst (snd (enter MemFSOptions_default (os_example (\<lambda>_. None))
                \<lparr>mpath = None\<rparr> (world_of [lit ''uuid-0''])))) = Some m
          \<and> m \<notin> assigned_names (world_of [lit ''uuid-0'']))"
proof -
  let ?n = "lit ''uuid-0''"
  let ?w = "world_of [?n]"
  let ?h = "\<lparr>mpath = Some ?n\<rparr>"
  let ?clean = "os_example (\<lambda>_. None)"
  let ?residue = "os_example (\<lambda>_. Some (NotDir 0))"
  have pool: "?n \<in> assigned_names ?w"
    by (simp add: world_of_simps)
  have u: "unmount_tmpfs (os_example left) ?n ?w =
      (None, ?w\<lparr>fs := (fs ?w)(?n := left ?n), events := [Umount ?n, Rmtree ?n]\<rparr>)" for left
    by (simp add: unmount_tmpfs_def path_exists_def is_dir_def world_of_def provisioned_def
        os_example_simps emit_def)
  have noop: "cleanup ?clean \<lparr>mpath = None\<rparr> ?w = (None, \<lparr>mpath = None\<rparr>, ?w)"
    using cleanup_releases_name [where self = "\<lparr>mpath = None\<rparr>" and w = ?w and env = ?clean]
    by simp
  have "\<exists>self' w'. cleanup ?clean ?h ?w = (None, self', w')
             \<and> mpath self' = None
             \<and> (?n \<notin> assigned_names w' \<longleftrightarrow> \<not> path_exists w' ?n)
             \<and> assigned_names w' =
                 (if path_exists w' ?n then assigned_names ?w else assigned_names ?w - {?n})
             \<and> events w' =
                 events (snd (unmount_tmpfs ?clean ?n ?w))
                 @ (if path_exists w' ?n then [Warning ?n] else [Acquire, PoolRemove ?n, Release])
             \<and> cleanup ?clean self' w' = (None, self', w')"
    using pool cleanup_releases_name [where self = ?h and w = ?w and n = ?n and env = ?clean]
    by (simp add: os_example_simps)
  then obtain s1 w1 where c1: "cleanup ?clean ?h ?w = (None, s1, w1)"
    and m1: "mpath s1 = None"
    and p1: "assigned_names w1 =
                 (if path_exists w1 ?n then assigned_names ?w else assigned_names ?w - {?n})"
    and e1: "events w1 = events (snd (unmount_tmpfs ?clean ?n ?w))
                 @ (if path_exists w1 ?n then [Warning ?n] else [Acquire, PoolRemove ?n, Release])"
    and a1: "cleanup ?clean s1 w1 = (None, s1, w1)"
    by blast
  have gone: "\<not> path_exists w1 ?n"
    using c1 by (auto simp: cleanup_def u path_exists_def emit_def world_of_simps split: if_splits)
  have clean: "\<exists>self' w'. cleanup ?clean ?h ?w = (None, self', w')
         \<and> mpath self' = None \<and> \<not> path_exists w' ?n \<and> assigned_names w' = {}
         \<and> events w' = [Umount ?n, Rmtree ?n, Acquire, PoolRemove ?n, Release]
         \<and> cleanup ?clean self' w' = (None, self', w')"
    using c1 m1 p1 e1 a1 gone by (simp add: u world_of_simps)
  have "\<exists>self' w'. cleanup ?residue ?h ?w = (None, self', w')
             \<and> mpath self' = None
             \<and> (?n \<notin> assigned_names w' \<longleftrightarrow> \<not> path_exists w' ?n)
             \<and> assigned_names w' =
                 (if path_exists w' ?n then assigned_names ?w else assigned_names ?w - {?n})
             \<and> events w' =
                 events (snd (unmount_tmpfs ?residue ?n ?w))
                 @ (if path_exists w' ?n then [Warning ?n] else [Acquire, PoolRemove ?n, Release])
             \<and> cleanup ?residue self' w' = (None, self', w')"
    using pool cleanup_releases_name [where self = ?h and w = ?w and n = ?n and env = ?residue]
    by (simp add: os_example_simps)
  then obtain s2 w2 where c2: "cleanup ?residue ?h ?w = (None, s2, w2)"
    and m2: "mpath s2 = None"
    and p2: "assigned_names w2 =
                 (if path_exists w2 ?n then assigned_names ?w else assigned_names ?w - {?n})"
    and e2: "events w2 = events (snd (unmount_tmpfs ?residue ?n ?w))
                 @ (if path_exists w2 ?n then [Warning ?n] else [Acquire, PoolRemove ?n, Release])"
    and a2: "cleanup ?residue s2 w2 = (None, s2, w2)"
    by blast
  have left: "path_exists w2 ?n"
    using c2 by (auto simp: cleanup_def u path_exists_def emit_def world_of_simps split: if_splits)
  have residue: "\<exists>self' w'. cleanup ?residue ?h ?w = (None, self', w')
         \<and> mpath self' = None \<and> path_exists w' ?n \<and> assigned_names w' = {?n}
         \<and> events w' = [Umount ?n, Rmtree ?n, Warning ?n]
         \<and> cleanup ?residue self' w' = (None, self', w')"
    using c2 m2 p2 e2 a2 left by (simp add: u world_of_simps)
  have en: "enter MemFSOptions_default ?clean \<lparr>mpath = None\<rparr> ?w
      = (None, \<lparr>mpath = None\<rparr>\<lparr>mpath := Some (lit ''uuid-1'')\<rparr>,
         ?w\<lparr>fs := (fs ?w)(lit ''uuid-1'' \<mapsto> provisioned),
             assigned_names := insert (lit ''uuid-1'') (assigned_names ?w),
             uuid_calls := uuid_calls ?w + Suc 1,
             events := events ?w @ Acquire # drawn ?clean ?w (Suc 1)
                         @ provision_events MemFSOptions_default (lit ''uuid-1'') @ [Release]\<rparr>)"
    by (rule enter_first_free) (simp_all add: os_example_simps world_of_simps lit_def)
  have again: "\<exists>m. mpath (fst (snd (enter MemFSOptions_default ?clean \<lparr>mpath = None\<rparr> ?w))) = Some m
          \<and> m \<notin> assigned_names ?w"
    using en cleanup_releases_name [where opts = MemFSOptions_default and env_acq = ?clean
        and self_acq = "\<lparr>mpath = None\<rparr>" and w_acq = ?w
        and self_new = "\<lparr>mpath = None\<rparr>\<lparr>mpath := Some (lit ''uuid-1'')\<rparr>"
        and w_new = "?w\<lparr>fs := (fs ?w)(lit ''uuid-1'' \<mapsto> provisioned),
             assigned_names := insert (lit ''uuid-1'') (assigned_names ?w),
             uuid_calls := uuid_calls ?w + Suc 1,
             events := events ?w @ Acquire # drawn ?clean ?w (Suc 1)
                         @ provision_events MemFSOptions_default (lit ''uuid-1'') @ [Release]\<rparr>"]
    by simp
  show ?thesis
    using noop pool clean residue again by blast
qed

text \<open>
  Claim C10 (the code does not do what the claim says): with three regular files
  \<^verbatim>\<open>output1\<close>, \<^verbatim>\<open>output2\<close>, \<^verbatim>\<open>output3\<close> in \<^verbatim>\<open>home\<close>, one more than
  \<^verbatim>\<open>MAX_FILES\<close>, the scan finds the three and the enumeration raises
  \<^verbatim>\<open>TypeError\<close> at the first, when it passes \<^verbatim>\<open>MAX_FILE_SIZE\<close> to
  \<^verbatim>\<open>from_path\<close> as a second argument; it yields no attachment, not one for each
  matching regular file. \<^verbatim>\<open>from_path\<close> itself returns all the bytes of a regular
  file, whatever their number.
\<close>

theorem attachments_over_limit_yields_nothing:
  "MAX_FILES MemFSOptions_default = 2
   \<and> length (filter (\<lambda>file. is_file (snd file))
       (glob_output
          (world_with_home (lit ''uuid-0'')
             [(lit ''output1'', RegularFile (blit ''1'')), (lit ''output2'', RegularFile (blit ''2'')),
              (lit ''output3'', RegularFile (blit ''3''))])
          (lit ''uuid-0''))) = 3
   \<and> attachments MemFSOptions_default \<lparr>mpath = Some (lit ''uuid-0'')\<rparr>
        (world_with_home (lit ''uuid-0'')
           [(lit ''output1'', RegularFile (blit ''1'')), (lit ''output2'', RegularFile (blit ''2'')),
            (lit ''output3'', RegularFile (blit ''3''))])
      = ([], Some TypeError)
   \<and> (\<forall>n b. from_path (n, RegularFile b) = Inr \<lparr>path = n, content = Bytes b\<rparr>)"
  by (simp add: attachments_def glob_output_def world_with_home_def lit_def from_path_call_two
      from_path_def MemFSOptions_default_def)

end
